theory Spec2Isabelle
  imports Main "HOL-Library.Word"
begin

unbundle bit_operations_syntax

section \<open>ISA memory expansion boards with LIM 3.2 EMS (src/device/isamem.c)\<close>

text \<open>
  A shallow embedding of the layout builder \<open>isamem_init\<close>, of the EMS register
  handlers \<open>ems_read\<close> and \<open>ems_write\<close>, and of the RAM handlers
  \<open>ram_readb\<close>, \<open>ram_readw\<close>, \<open>ram_writeb\<close>, \<open>ram_writew\<close>, \<open>ems_readb\<close>,
  \<open>ems_readw\<close>, \<open>ems_writeb\<close> and \<open>ems_writew\<close>.

  Machine integers are words of the width the C declares. A pointer into the board's
  RAM buffer is the byte offset from \<open>dev->ram\<close>, a natural number; the null pointer of
  a zeroed structure is \<open>None\<close>. An access that leaves the buffer, or that goes through
  the null pointer, is undefined in C and is the value \<open>None\<close> here.
\<close>

subsection \<open>The macros\<close>

abbreviation (input) RAM_TOPMEM :: "32 word" where "RAM_TOPMEM \<equiv> 655360"
abbreviation (input) RAM_UMAMEM :: "32 word" where "RAM_UMAMEM \<equiv> 393216"
abbreviation (input) EMS_MAXSIZE :: "32 word" where "EMS_MAXSIZE \<equiv> 2097152"
abbreviation (input) EMS_PGSIZE :: "'a::numeral" where "EMS_PGSIZE \<equiv> 16384"
abbreviation (input) EMS_MAXPAGE :: nat where "EMS_MAXPAGE \<equiv> 4"

definition FLAG_CONFIG :: "8 word" where "FLAG_CONFIG = 0x01"
definition FLAG_WIDE :: "8 word" where "FLAG_WIDE = 0x10"
definition FLAG_FAST :: "8 word" where "FLAG_FAST = 0x20"
definition FLAG_EMS :: "8 word" where "FLAG_EMS = 0x40"

subsection \<open>The data model\<close>

text \<open>
  Modelled from the spec: the host's \<open>mem_mapping_t\<close> and its primitives
  (\<open>mem_mapping_add\<close>, \<open>mem_mapping_enable\<close>, \<open>mem_mapping_disable\<close>,
  \<open>mem_mapping_set_exec\<close>) are declared in \<open>86box/mem.h\<close>, outside this file. A mapping
  is its window (base and size), whether guest accesses are routed to it, whether word
  handlers were registered with it, and its backing pointer. Registering a region
  enables it, as the source's comment at the low mapping says (create, initialize and
  enable).
\<close>

record mem_mapping =
  m_enable :: bool
  m_base :: "32 word"
  m_size :: "32 word"
  m_wide :: bool
  m_exec :: "nat option"

definition mem_mapping_zero :: mem_mapping where
  "mem_mapping_zero =
     \<lparr>m_enable = False, m_base = 0, m_size = 0, m_wide = False, m_exec = None\<rparr>"

definition mem_mapping_add :: "32 word \<Rightarrow> 32 word \<Rightarrow> bool \<Rightarrow> nat \<Rightarrow> mem_mapping" where
  "mem_mapping_add b sz wide p =
     \<lparr>m_enable = True, m_base = b, m_size = sz, m_wide = wide, m_exec = Some p\<rparr>"

definition mem_mapping_enable :: "mem_mapping \<Rightarrow> mem_mapping" where
  "mem_mapping_enable m = m\<lparr>m_enable := True\<rparr>"

definition mem_mapping_disable :: "mem_mapping \<Rightarrow> mem_mapping" where
  "mem_mapping_disable m = m\<lparr>m_enable := False\<rparr>"

definition mem_mapping_set_exec :: "mem_mapping \<Rightarrow> nat option \<Rightarrow> mem_mapping" where
  "mem_mapping_set_exec m p = m\<lparr>m_exec := p\<rparr>"

text \<open>\<open>emsreg_t\<close>: one viewport register. \<open>enabled\<close> is an \<open>int8_t\<close>, true when nonzero.\<close>

record emsreg =
  enabled :: "8 word"
  page :: "8 word"
  frame :: "8 word"
  addr :: "nat option"
  mapping :: mem_mapping

definition emsreg_zero :: emsreg where
  "emsreg_zero =
     \<lparr>enabled = 0, page = 0, frame = 0, addr = None, mapping = mem_mapping_zero\<rparr>"

text \<open>\<open>memdev_t\<close>: one board instance.\<close>

record memdev =
  board :: nat
  flags :: "8 word"
  total_size :: "16 word"
  base_addr :: "32 word"
  start_addr :: "32 word"
  frame_addr :: "32 word"
  ems_size :: "16 word"
  ems_pages :: "16 word"
  ems_start :: "32 word"
  ram :: "8 word list"
  low_mapping :: mem_mapping
  high_mapping :: mem_mapping
  ems :: "emsreg list"

text \<open>The instance after \<open>memset(dev, 0x00, sizeof(memdev_t))\<close>.\<close>

definition memdev_zero :: memdev where
  "memdev_zero =
     \<lparr>board = 0, flags = 0, total_size = 0, base_addr = 0, start_addr = 0,
      frame_addr = 0, ems_size = 0, ems_pages = 0, ems_start = 0, ram = [],
      low_mapping = mem_mapping_zero, high_mapping = mem_mapping_zero,
      ems = replicate EMS_MAXPAGE emsreg_zero\<rparr>"

subsection \<open>The EMS control registers\<close>

text \<open>
  Both handlers start with the same two lines: the viewport number is
  \<open>port / EMS_PGSIZE\<close>, and the register is selected by
  \<open>(port & (EMS_PGSIZE - 1)) - dev->base_addr\<close>, computed in 32 bits without sign.
\<close>

definition ems_vpage :: "16 word \<Rightarrow> nat" where
  "ems_vpage port = unat port div EMS_PGSIZE"

definition ems_regsel :: "memdev \<Rightarrow> 16 word \<Rightarrow> 32 word" where
  "ems_regsel dev port = ucast (port AND (EMS_PGSIZE - 1)) - base_addr dev"

definition ems_read :: "16 word \<Rightarrow> memdev \<Rightarrow> 8 word" where
  "ems_read port dev =
     (let vpage = ems_vpage port; sel = ems_regsel dev port in
      if sel = 0 then
        (let ret = page (ems dev ! vpage) in
         if enabled (ems dev ! vpage) \<noteq> 0 then ret OR 0x80 else ret)
      else if sel = 1 then 0xff
      else 0xff)"

text \<open>The body of \<open>case 0x0000\<close> of \<open>ems_write\<close>, on the register of the viewport.\<close>

definition ems_page_write :: "memdev \<Rightarrow> 8 word \<Rightarrow> emsreg \<Rightarrow> emsreg" where
  "ems_page_write dev val e0 =
     (let e1 = e0\<lparr>enabled := val AND 0x80, page := val AND 0x7f\<rparr> in
      if flags dev AND FLAG_CONFIG \<noteq> 0 then
        (let e2 = (if ucast (page e1) < ems_pages dev
                   then e1\<lparr>addr := Some (unat (ems_start dev)
                                            + unat (val AND 0x7f) * EMS_PGSIZE)\<rparr>
                   else e1\<lparr>enabled := 0\<rparr>) in
         if enabled e2 \<noteq> 0
         then e2\<lparr>mapping := mem_mapping_enable (mem_mapping_set_exec (mapping e2) (addr e2))\<rparr>
         else e2\<lparr>mapping := mem_mapping_disable (mapping e2)\<rparr>)
      else e1)"

definition ems_write :: "16 word \<Rightarrow> 8 word \<Rightarrow> memdev \<Rightarrow> memdev" where
  "ems_write port val dev =
     (let vpage = ems_vpage port; sel = ems_regsel dev port in
      if sel = 0 then
        dev\<lparr>ems := (ems dev)[vpage := ems_page_write dev val (ems dev ! vpage)]\<rparr>
      else if sel = 1 then
        (let dev1 = dev\<lparr>ems := (ems dev)[vpage := (ems dev ! vpage)\<lparr>frame := val\<rparr>]\<rparr> in
         if val \<noteq> 0 then dev1\<lparr>flags := flags dev1 OR FLAG_CONFIG\<rparr> else dev1)
      else dev)"

subsection \<open>The RAM handlers\<close>

text \<open>
  \<open>ram_readb\<close> and its siblings address the buffer at \<open>dev->ram + (addr - map->base)\<close>,
  the difference taken in 32 bits without sign. A word is the two bytes at the offset,
  low byte first (the emulator's hosts are little-endian).
\<close>

definition ram_readb :: "32 word \<Rightarrow> mem_mapping \<Rightarrow> memdev \<Rightarrow> 8 word option" where
  "ram_readb a mp dev =
     (let off = unat (a - m_base mp) in
      if off < length (ram dev) then Some (ram dev ! off) else None)"

definition ram_readw :: "32 word \<Rightarrow> mem_mapping \<Rightarrow> memdev \<Rightarrow> 16 word option" where
  "ram_readw a mp dev =
     (let off = unat (a - m_base mp) in
      if off + 1 < length (ram dev)
      then Some (ucast (ram dev ! off) OR push_bit 8 (ucast (ram dev ! (off + 1))))
      else None)"

definition ram_writeb :: "32 word \<Rightarrow> 8 word \<Rightarrow> mem_mapping \<Rightarrow> memdev \<Rightarrow> memdev option" where
  "ram_writeb a val mp dev =
     (let off = unat (a - m_base mp) in
      if off < length (ram dev) then Some (dev\<lparr>ram := (ram dev)[off := val]\<rparr>) else None)"

definition ram_writew :: "32 word \<Rightarrow> 16 word \<Rightarrow> mem_mapping \<Rightarrow> memdev \<Rightarrow> memdev option" where
  "ram_writew a val mp dev =
     (let off = unat (a - m_base mp) in
      if off + 1 < length (ram dev)
      then Some (dev\<lparr>ram := (ram dev)[off := ucast val, off + 1 := ucast (drop_bit 8 val)]\<rparr>)
      else None)"

text \<open>
  The paged handlers find the viewport from the address, \<open>(addr & 0xffff) / EMS_PGSIZE\<close>,
  and address the buffer at \<open>dev->ems[vpage].addr + (addr - map->base)\<close>.
\<close>

definition ems_addr_vpage :: "32 word \<Rightarrow> nat" where
  "ems_addr_vpage a = unat (a AND 0xffff) div EMS_PGSIZE"

definition ems_readb :: "32 word \<Rightarrow> mem_mapping \<Rightarrow> memdev \<Rightarrow> 8 word option" where
  "ems_readb a mp dev =
     (case addr (ems dev ! ems_addr_vpage a) of
        None \<Rightarrow> None
      | Some p \<Rightarrow>
          (let off = p + unat (a - m_base mp) in
           if off < length (ram dev) then Some (ram dev ! off) else None))"

definition ems_readw :: "32 word \<Rightarrow> mem_mapping \<Rightarrow> memdev \<Rightarrow> 16 word option" where
  "ems_readw a mp dev =
     (case addr (ems dev ! ems_addr_vpage a) of
        None \<Rightarrow> None
      | Some p \<Rightarrow>
          (let off = p + unat (a - m_base mp) in
           if off + 1 < length (ram dev)
           then Some (ucast (ram dev ! off) OR push_bit 8 (ucast (ram dev ! (off + 1))))
           else None))"

definition ems_writeb :: "32 word \<Rightarrow> 8 word \<Rightarrow> mem_mapping \<Rightarrow> memdev \<Rightarrow> memdev option" where
  "ems_writeb a val mp dev =
     (case addr (ems dev ! ems_addr_vpage a) of
        None \<Rightarrow> None
      | Some p \<Rightarrow>
          (let off = p + unat (a - m_base mp) in
           if off < length (ram dev) then Some (dev\<lparr>ram := (ram dev)[off := val]\<rparr>)
           else None))"

definition ems_writew :: "32 word \<Rightarrow> 16 word \<Rightarrow> mem_mapping \<Rightarrow> memdev \<Rightarrow> memdev option" where
  "ems_writew a val mp dev =
     (case addr (ems dev ! ems_addr_vpage a) of
        None \<Rightarrow> None
      | Some p \<Rightarrow>
          (let off = p + unat (a - m_base mp) in
           if off + 1 < length (ram dev)
           then Some (dev\<lparr>ram := (ram dev)[off := ucast val,
                                              off + 1 := ucast (drop_bit 8 val)]\<rparr>)
           else None))"

subsection \<open>The layout builder\<close>

text \<open>
  The options \<open>isamem_init\<close> reads with \<open>device_get_config_int\<close>,
  \<open>device_get_config_hex16\<close> and \<open>device_get_config_hex20\<close>; each returns a C \<open>int\<close>.
\<close>

record config =
  cfg_size :: int
  cfg_start :: int
  cfg_length :: int
  cfg_width :: int
  cfg_speed :: int
  cfg_ems :: int
  cfg_base :: int
  cfg_frame :: int

text \<open>
  The local variables of \<open>isamem_init\<close>, with what it changes outside the instance:
  the shared mapping \<open>ram_remapped_mapping\<close> (\<open>None\<close> while the call has not touched
  it) and the port ranges given to \<open>io_sethandler\<close>, whose base is a 16-bit port.
  \<open>l_ptr\<close> is \<open>ptr - dev->ram\<close>. The calls of \<open>mem_set_mem_state\<close>, which tell the host
  that a range is external RAM, and the log lines change nothing the handlers read and
  are left out.
\<close>

record layout =
  l_dev :: memdev
  l_k :: "32 word"
  l_tot :: "32 word"
  l_addr :: "32 word"
  l_ptr :: nat
  l_remap :: "mem_mapping option"
  l_io :: "16 word list"

text \<open>The per-board \<open>switch\<close>: the instance and \<open>tot\<close>, in KB.\<close>

definition board_setup :: "config \<Rightarrow> memdev \<Rightarrow> memdev \<times> 32 word" where
  "board_setup cfg dev =
     (if board dev = 0 \<or> board dev = 2 then
        (let d = dev\<lparr>total_size := word_of_int (cfg_size cfg),
                      start_addr := word_of_int (cfg_start cfg)\<rparr>
         in (d, ucast (total_size d)))
      else if board dev = 1 then
        (let d = dev\<lparr>total_size := word_of_int (cfg_size cfg),
                      start_addr := word_of_int (cfg_start cfg)\<rparr>
         in (d\<lparr>flags := flags d OR FLAG_WIDE\<rparr>, ucast (total_size d)))
      else if board dev = 3 then
        (dev\<lparr>base_addr := word_of_int (cfg_base cfg),
              total_size := word_of_int (cfg_size cfg),
              frame_addr := 0xD0000,
              flags := flags dev OR (FLAG_EMS OR FLAG_CONFIG)\<rparr>, 0)
      else if board dev = 10 then
        (let d0 = dev\<lparr>base_addr := word_of_int (cfg_base cfg),
                       total_size := word_of_int (cfg_size cfg),
                       start_addr := word_of_int (cfg_start cfg)\<rparr>;
             d1 = (if cfg_width cfg \<noteq> 0 then d0\<lparr>flags := flags d0 OR FLAG_WIDE\<rparr> else d0);
             d2 = (if cfg_speed cfg \<noteq> 0 then d1\<lparr>flags := flags d1 OR FLAG_FAST\<rparr> else d1);
             d3 = (if cfg_ems cfg \<noteq> 0 then d2\<lparr>flags := flags d2 OR FLAG_EMS\<rparr> else d2)
         in (d3\<lparr>frame_addr := 0xE0000\<rparr>, word_of_int (cfg_length cfg)))
      else if board dev = 11 then
        (let d0 = dev\<lparr>base_addr := word_of_int (cfg_base cfg),
                       total_size := word_of_int (cfg_size cfg),
                       start_addr := word_of_int (cfg_start cfg),
                       frame_addr := word_of_int (cfg_frame cfg)\<rparr>;
             d1 = (if cfg_width cfg \<noteq> 0 then d0\<lparr>flags := flags d0 OR FLAG_WIDE\<rparr> else d0);
             d2 = (if cfg_speed cfg \<noteq> 0 then d1\<lparr>flags := flags d1 OR FLAG_FAST\<rparr> else d1)
         in (d2, 0))
      else (dev, 0))"

text \<open>
  From the creation of the instance to the allocation of the RAM: \<open>dev->board\<close> is a
  6-bit field, the start address is turned into bytes, the wide flag is dropped on a
  machine that is not an AT, and \<open>k\<close>, \<open>tot\<close>, \<open>addr\<close> and \<open>ptr\<close> are set.
\<close>

definition layout_start :: "bool \<Rightarrow> nat \<Rightarrow> config \<Rightarrow> layout" where
  "layout_start at loc cfg =
     (let (d0, tot) = board_setup cfg (memdev_zero\<lparr>board := loc mod 64\<rparr>);
          d1 = d0\<lparr>start_addr := push_bit 10 (start_addr d0)\<rparr>;
          d2 = (if \<not> at \<and> flags d1 AND FLAG_WIDE \<noteq> 0
                then d1\<lparr>flags := flags d1 AND NOT FLAG_WIDE\<rparr> else d1);
          k = push_bit 10 (ucast (total_size d2) :: 32 word);
          d3 = d2\<lparr>ram := replicate (unat k) 0\<rparr>
      in \<lparr>l_dev = d3, l_k = k, l_tot = push_bit 10 tot, l_addr = start_addr d3,
          l_ptr = 0, l_remap = None, l_io = []\<rparr>)"

text \<open>The conventional extension, up to 640 KB.\<close>

definition carve_low :: "layout \<Rightarrow> layout" where
  "carve_low s =
     (let t = (if l_addr s < RAM_TOPMEM then RAM_TOPMEM - l_addr s else 0) in
      if t > 0 then
        (let t = (if t > l_tot s then l_tot s else t) in
         s\<lparr>l_dev := (l_dev s)\<lparr>low_mapping :=
                       mem_mapping_add (l_addr s) t (flags (l_dev s) AND FLAG_WIDE \<noteq> 0)
                         (l_ptr s)\<rparr>,
           l_ptr := l_ptr s + unat t,
           l_tot := l_tot s - t,
           l_addr := l_addr s + t\<rparr>)
      else s)"

text \<open>The 384 KB that follow 640 KB go to the shared remap window, left disabled.\<close>

definition carve_uma :: "layout \<Rightarrow> layout" where
  "carve_uma s =
     (if l_addr s = RAM_TOPMEM \<and> l_tot s \<ge> RAM_UMAMEM then
        (let t = RAM_UMAMEM in
         s\<lparr>l_remap := Some (mem_mapping_disable
                        (mem_mapping_set_exec
                           (mem_mapping_add (l_addr s + l_tot s) t True (l_ptr s))
                           (Some (l_ptr s)))),
           l_ptr := l_ptr s + unat t,
           l_tot := l_tot s - t,
           l_addr := l_addr s + t\<rparr>)
      else s)"

text \<open>The block guarded by \<open>addr > 0 && tot > 0\<close>, which first takes \<open>tot\<close> off \<open>k\<close>.\<close>

definition carve_conv :: "layout \<Rightarrow> layout" where
  "carve_conv s =
     (if l_addr s > 0 \<and> l_tot s > 0
      then carve_uma (carve_low (s\<lparr>l_k := l_k s - l_tot s\<rparr>))
      else s)"

text \<open>Extended memory, on an AT.\<close>

definition carve_ext :: "bool \<Rightarrow> layout \<Rightarrow> layout" where
  "carve_ext at s =
     (if at \<and> l_addr s > 0 \<and> l_tot s > 0 then
        (let t = l_tot s in
         s\<lparr>l_dev := (l_dev s)\<lparr>high_mapping := mem_mapping_add (l_addr s) t True (l_ptr s)\<rparr>,
           l_ptr := l_ptr s + unat t,
           l_tot := l_tot s - t,
           l_addr := l_addr s + t\<rparr>)
      else s)"

text \<open>One round of the loop over the viewports.\<close>

definition ems_setup_page :: "nat \<Rightarrow> layout \<Rightarrow> layout" where
  "ems_setup_page i s =
     (let dev = l_dev s;
          mp = mem_mapping_disable
                 (mem_mapping_add (frame_addr dev + EMS_PGSIZE * of_nat i) EMS_PGSIZE
                    (flags dev AND FLAG_WIDE \<noteq> 0) (l_ptr s))
      in s\<lparr>l_dev := dev\<lparr>ems := (ems dev)[i := (ems dev ! i)\<lparr>mapping := mp\<rparr>]\<rparr>,
            l_io := l_io s @ [ucast (base_addr dev + EMS_PGSIZE * of_nat i)]\<rparr>)"

function ems_setup_loop :: "nat \<Rightarrow> layout \<Rightarrow> layout" where
  "ems_setup_loop i s =
     (if i < EMS_MAXPAGE then ems_setup_loop (i + 1) (ems_setup_page i s) else s)"
  by pat_completeness auto
termination
  by (relation "measure (\<lambda>(i, s). EMS_MAXPAGE - i)") auto

declare ems_setup_loop.simps [simp del]

text \<open>The EMS pool: what \<open>k\<close> holds, 2048 KB at most, starting at \<open>ptr\<close>.\<close>

definition setup_ems :: "layout \<Rightarrow> layout" where
  "setup_ems s =
     (if flags (l_dev s) AND FLAG_EMS \<noteq> 0 then
        (let t = l_k s;
             t = (if t > EMS_MAXSIZE then EMS_MAXSIZE else t);
             dev = (l_dev s)\<lparr>ems_start := of_nat (l_ptr s),
                             ems_size := ucast (drop_bit 10 t),
                             ems_pages := ucast (t div EMS_PGSIZE)\<rparr>
         in ems_setup_loop 0 (s\<lparr>l_dev := dev\<rparr>))
      else s)"

definition isamem_init :: "bool \<Rightarrow> nat \<Rightarrow> config \<Rightarrow> layout" where
  "isamem_init at loc cfg = setup_ems (carve_ext at (carve_conv (layout_start at loc cfg)))"

subsection \<open>The board on its buses\<close>

text \<open>
  Modelled from the spec: the host's I/O dispatch (\<open>io_sethandler\<close>, in \<open>86box/io.h\<close>)
  is outside this file. A range registered at a 16-bit base with count 2 routes the
  ports \<open>base\<close> and \<open>base + 1\<close> to \<open>ems_read\<close> and \<open>ems_write\<close>; \<open>ems_port dev i off\<close>
  is the port at offset \<open>off\<close> of the range \<open>isamem_init\<close> registers for viewport \<open>i\<close>.
\<close>

definition ems_port :: "memdev \<Rightarrow> nat \<Rightarrow> nat \<Rightarrow> 16 word" where
  "ems_port dev i off = ucast (base_addr dev + EMS_PGSIZE * of_nat i) + of_nat off"

text \<open>
  A sequence of register accesses. \<open>ems_read\<close> takes the instance and writes to none of
  its fields, so a read leaves the instance as it is.
\<close>

datatype io_op = IoRead "16 word" | IoWrite "16 word" "8 word"

fun io_step :: "memdev \<Rightarrow> io_op \<Rightarrow> memdev" where
  "io_step dev (IoRead port) = dev"
| "io_step dev (IoWrite port val) = ems_write port val dev"

definition io_run :: "io_op list \<Rightarrow> memdev \<Rightarrow> memdev" where
  "io_run xs dev = foldl io_step dev xs"

text \<open>
  Modelled from the spec: the host's memory dispatch is outside this file. The host
  calls a mapping's handler only while the mapping is enabled and only for an address
  inside its window; it calls a word handler only where one was registered, and
  otherwise makes the word access from two byte accesses.
\<close>

definition in_window :: "mem_mapping \<Rightarrow> 32 word \<Rightarrow> bool" where
  "in_window mp a = (m_enable mp \<and> m_base mp \<le> a \<and> a - m_base mp < m_size mp)"

definition in_window_w :: "mem_mapping \<Rightarrow> 32 word \<Rightarrow> bool" where
  "in_window_w mp a = (m_wide mp \<and> in_window mp a)"

text \<open>
  Both bytes of the word at \<open>a\<close> lie in the window. The word handlers read and write
  the byte after \<open>a\<close> whether or not it does: at the last byte of a window they reach
  one byte past it.
\<close>

definition word_inside :: "mem_mapping \<Rightarrow> 32 word \<Rightarrow> bool" where
  "word_inside mp a = (unat (a - m_base mp) + 1 < unat (m_size mp))"

text \<open>The mappings an instance owns, and the handlers registered with each.\<close>

datatype mapref = LowMap | HighMap | EmsMap nat

fun the_map :: "memdev \<Rightarrow> mapref \<Rightarrow> mem_mapping" where
  "the_map dev LowMap = low_mapping dev"
| "the_map dev HighMap = high_mapping dev"
| "the_map dev (EmsMap i) = mapping (ems dev ! i)"

fun owned :: "mapref \<Rightarrow> bool" where
  "owned (EmsMap i) = (i < EMS_MAXPAGE)"
| "owned r = True"

fun mem_readb :: "mapref \<Rightarrow> 32 word \<Rightarrow> memdev \<Rightarrow> 8 word option" where
  "mem_readb (EmsMap i) a dev = ems_readb a (the_map dev (EmsMap i)) dev"
| "mem_readb r a dev = ram_readb a (the_map dev r) dev"

fun mem_readw :: "mapref \<Rightarrow> 32 word \<Rightarrow> memdev \<Rightarrow> 16 word option" where
  "mem_readw (EmsMap i) a dev = ems_readw a (the_map dev (EmsMap i)) dev"
| "mem_readw r a dev = ram_readw a (the_map dev r) dev"

fun mem_writeb :: "mapref \<Rightarrow> 32 word \<Rightarrow> 8 word \<Rightarrow> memdev \<Rightarrow> memdev option" where
  "mem_writeb (EmsMap i) a val dev = ems_writeb a val (the_map dev (EmsMap i)) dev"
| "mem_writeb r a val dev = ram_writeb a val (the_map dev r) dev"

fun mem_writew :: "mapref \<Rightarrow> 32 word \<Rightarrow> 16 word \<Rightarrow> memdev \<Rightarrow> memdev option" where
  "mem_writew (EmsMap i) a val dev = ems_writew a val (the_map dev (EmsMap i)) dev"
| "mem_writew r a val dev = ram_writew a val (the_map dev r) dev"

text \<open>
  What the guest can do to a board: access a register, or write a byte or a word
  through one of the board's mappings. A write the host does not route to the board
  leaves the board as it is; a handler that leaves the RAM buffer gives \<open>None\<close>.
\<close>

datatype bus_op =
    Io io_op
  | MemWriteB mapref "32 word" "8 word"
  | MemWriteW mapref "32 word" "16 word"

fun step :: "memdev \<Rightarrow> bus_op \<Rightarrow> memdev option" where
  "step dev (Io x) = Some (io_step dev x)"
| "step dev (MemWriteB r a val) =
     (if owned r \<and> in_window (the_map dev r) a then mem_writeb r a val dev else Some dev)"
| "step dev (MemWriteW r a val) =
     (if owned r \<and> in_window_w (the_map dev r) a then mem_writew r a val dev else Some dev)"

fun run :: "bus_op list \<Rightarrow> memdev \<Rightarrow> memdev option" where
  "run [] dev = Some dev"
| "run (x # xs) dev = (case step dev x of None \<Rightarrow> None | Some dev' \<Rightarrow> run xs dev')"

text \<open>
  An operation that writes no word across the end of a window, the windows taken from
  the board as constructed (no operation moves or resizes a window).
\<close>

fun words_inside :: "memdev \<Rightarrow> bus_op \<Rightarrow> bool" where
  "words_inside d0 (MemWriteW r a val) = (owned r \<longrightarrow> word_inside (the_map d0 r) a)"
| "words_inside d0 x = True"

subsection \<open>The pool, as the specification words it and as the code computes it\<close>

text \<open>
  The specification's \<open>pool_bytes\<close>: the bytes of the RAM buffer that remain after the
  conventional, remap-window and extended carving, that is, from the cursor \<open>ptr\<close> to the
  end of the buffer; and the page count the specification derives from it.
\<close>

definition spec_pool_bytes :: "layout \<Rightarrow> nat" where
  "spec_pool_bytes s = length (ram (l_dev s)) - l_ptr s"

definition spec_ems_pages :: "layout \<Rightarrow> nat" where
  "spec_ems_pages s = min (spec_pool_bytes s) (2048 * 1024) div 16384"

text \<open>
  The bytes \<open>isamem_init\<close> sets aside for plain RAM before it carves: \<open>tot\<close> when the
  block guarded by \<open>addr > 0 && tot > 0\<close> runs, nothing otherwise.
\<close>

definition reserved_bytes :: "layout \<Rightarrow> 32 word" where
  "reserved_bytes s0 = (if l_addr s0 > 0 \<and> l_tot s0 > 0 then l_tot s0 else 0)"

text \<open>The mapping the loop registers, and disables, for viewport \<open>i\<close>.\<close>

definition viewport_window :: "layout \<Rightarrow> nat \<Rightarrow> mem_mapping" where
  "viewport_window s i =
     \<lparr>m_enable = False, m_base = frame_addr (l_dev s) + EMS_PGSIZE * of_nat i,
      m_size = EMS_PGSIZE, m_wide = (flags (l_dev s) AND FLAG_WIDE \<noteq> 0),
      m_exec = Some (l_ptr s)\<rparr>"

subsection \<open>What holds of a board on its buses\<close>

text \<open>
  The state of one viewport register that every register access keeps: the page has
  seven bits, and a window that is enabled belongs to a configured board, has its
  register's enabled field set and shows a page of the pool, at that page's address.
\<close>

definition reg_ok :: "memdev \<Rightarrow> emsreg \<Rightarrow> bool" where
  "reg_ok dev e =
     (page e AND 0x7f = page e
      \<and> (m_enable (mapping e) \<longrightarrow>
            flags dev AND FLAG_CONFIG \<noteq> 0 \<and> enabled e \<noteq> 0
            \<and> ucast (page e) < ems_pages dev
            \<and> addr e = Some (unat (ems_start dev) + unat (page e) * EMS_PGSIZE)))"

definition regs_ok :: "memdev \<Rightarrow> bool" where
  "regs_ok dev = (length (ems dev) = EMS_MAXPAGE \<and> list_all (reg_ok dev) (ems dev))"

text \<open>
  What no bus operation changes: the size of the buffer, the pool, the plain mappings
  and the windows of the viewports.
\<close>

definition same_layout :: "memdev \<Rightarrow> memdev \<Rightarrow> bool" where
  "same_layout d0 dev =
     (length (ram dev) = length (ram d0)
      \<and> ems_start dev = ems_start d0 \<and> ems_pages dev = ems_pages d0
      \<and> low_mapping dev = low_mapping d0 \<and> high_mapping dev = high_mapping d0
      \<and> map (\<lambda>e. (m_base (mapping e), m_size (mapping e))) (ems dev)
          = map (\<lambda>e. (m_base (mapping e), m_size (mapping e))) (ems d0))"

text \<open>
  What a layout must give for every routed access to stay in the buffer: the plain
  regions are no larger than the buffer, the pool lies in it, and where there is a pool
  the four windows tile one 64 KB frame at \<open>0xD0000\<close> or \<open>0xE0000\<close>.
\<close>

definition layout_ok :: "memdev \<Rightarrow> bool" where
  "layout_ok d0 =
     (unat (m_size (low_mapping d0)) \<le> length (ram d0)
      \<and> unat (m_size (high_mapping d0)) \<le> length (ram d0)
      \<and> unat (ems_start d0) + unat (ems_pages d0) * EMS_PGSIZE \<le> length (ram d0)
      \<and> (ems_pages d0 \<noteq> 0 \<longrightarrow>
            (frame_addr d0 = 0xD0000 \<or> frame_addr d0 = 0xE0000)
            \<and> map (\<lambda>e. (m_base (mapping e), m_size (mapping e))) (ems d0)
                = map (\<lambda>i. (frame_addr d0 + EMS_PGSIZE * of_nat i, EMS_PGSIZE)) [0, 1, 2, 3]))"

subsection \<open>Instances the theorems are tried on\<close>

text \<open>
  The EV-159 is board 10. \<open>ev159_cfg sz st len\<close> is the configuration with memory size
  \<open>sz\<close> KB, start address \<open>st\<close> KB and contiguous size \<open>len\<close> KB, 8-bit, standard speed,
  EMS enabled, at port 258H (the option table's default port).
\<close>

definition ev159_cfg :: "int \<Rightarrow> int \<Rightarrow> int \<Rightarrow> config" where
  "ev159_cfg sz st len =
     \<lparr>cfg_size = sz, cfg_start = st, cfg_length = len, cfg_width = 0, cfg_speed = 0,
      cfg_ems = 1, cfg_base = 0x258, cfg_frame = 0\<rparr>"

text \<open>
  The instance of an EV-159 with 512 KB, start address 0, on an AT: the whole buffer is
  the pool, 32 pages, and the board waits to be configured.
\<close>

definition ev159_dev :: memdev where
  "ev159_dev = l_dev (isamem_init True 10 (ev159_cfg 512 0 0))"

text \<open>
  The IBM PC/AT Memory Expansion is board 1; its options are the memory size and the
  start address, in KB.
\<close>

definition ibmat_cfg :: "int \<Rightarrow> int \<Rightarrow> config" where
  "ibmat_cfg sz st =
     \<lparr>cfg_size = sz, cfg_start = st, cfg_length = 0, cfg_width = 0, cfg_speed = 0,
      cfg_ems = 0, cfg_base = 0, cfg_frame = 0\<rparr>"

text \<open>A zeroed instance whose registers are at port 258H.\<close>

definition dev_258 :: memdev where
  "dev_258 = memdev_zero\<lparr>base_addr := 0x258\<rparr>"

section \<open>The register decoding\<close>

lemmas flag_defs = FLAG_CONFIG_def FLAG_WIDE_def FLAG_FAST_def FLAG_EMS_def

lemmas mapping_defs = mem_mapping_add_def mem_mapping_enable_def mem_mapping_disable_def
  mem_mapping_set_exec_def mem_mapping_zero_def

lemma ems_vpage_lt: "ems_vpage port < EMS_MAXPAGE"
proof -
  have "unat port < 65536" using unsigned_less [of port] by simp
  then show ?thesis by (simp add: ems_vpage_def)
qed

lemma unat_ems_port:
  assumes "unat (base_addr dev) < 16383" "i < 4" "off < 2"
  shows "unat (ems_port dev i off) = unat (base_addr dev) + 16384 * i + off"
  using assms
  by (simp add: ems_port_def unat_word_ariths unsigned_ucast_eq take_bit_eq_mod unat_of_nat)

lemma unat_and_pgmask: "unat ((p :: 16 word) AND 16383) = unat p mod 16384"
proof -
  have "p AND 16383 = take_bit 14 p" by (simp add: take_bit_eq_mask mask_eq_exp_minus_1)
  moreover have "unat (take_bit 14 p) = take_bit 14 (unat p)" by (rule unsigned_take_bit_eq)
  moreover have "take_bit 14 (unat p) = unat p mod 2 ^ 14" by (rule take_bit_eq_mod)
  ultimately show ?thesis by simp
qed

lemma unat_ucast_16_32: "unat (ucast (w :: 16 word) :: 32 word) = unat w"
proof -
  have "unat w < 2 ^ 16" using unsigned_less [of w] by simp
  then have "unat w < 2 ^ 32" by simp
  then have "take_bit 32 (unat w) = unat w" by (rule take_bit_nat_eq_self)
  moreover have "unat (ucast w :: 32 word) = take_bit 32 (unat w)"
    using unsigned_ucast_eq [of w, where 'c = 32 and 'a = nat] by simp
  ultimately show ?thesis by simp
qed

text \<open>
  C7. For a base port below \<open>0x3fff\<close> (every address the boards' option tables offer
  is: \<open>0\<close>, \<open>0x208\<close> to \<open>0x20e\<close>, \<open>0x218\<close> to \<open>0x2e8\<close>), for every viewport \<open>i\<close> in
  \<open>0..3\<close> and offset \<open>off\<close> in \<open>{0, 1}\<close>, the port
  \<open>(base_port + i * 16384 + off) mod 65536\<close> is decoded to viewport \<open>i\<close>, as
  \<open>port / 16384\<close>, and to register \<open>off\<close>, as \<open>(port mod 16384) - base_port\<close>.
\<close>

theorem ems_port_decode:
  assumes "base_addr dev < 0x3fff" and "i < EMS_MAXPAGE" and "off < 2"
  shows "unat (ems_port dev i off) = (unat (base_addr dev) + i * 16384 + off) mod 65536
         \<and> ems_vpage (ems_port dev i off) = i
         \<and> ems_regsel dev (ems_port dev i off) = of_nat off"
proof -
  have b: "unat (base_addr dev) < 16383" using assms(1) by (simp add: word_less_nat_alt)
  note u = unat_ems_port [OF b assms(2,3)]
  have v: "ems_vpage (ems_port dev i off) = i"
    using b assms(3) by (simp add: ems_vpage_def u)
  have m: "(unat (base_addr dev) + 16384 * i + off) mod 16384 = unat (base_addr dev) + off"
  proof -
    have "(unat (base_addr dev) + 16384 * i + off) mod 16384
            = (unat (base_addr dev) + off + i * 16384) mod 16384"
      by (simp add: ac_simps)
    also have "\<dots> = (unat (base_addr dev) + off) mod 16384" by (rule mod_mult_self1)
    also have "\<dots> = unat (base_addr dev) + off" using b assms(3) by simp
    finally show ?thesis .
  qed
  have "unat (ucast (ems_port dev i off AND 16383) :: 32 word) = unat (base_addr dev) + off"
    by (simp only: unat_ucast_16_32 unat_and_pgmask u m)
  also have "\<dots> = unat (base_addr dev + of_nat off)"
    using b assms(3) by (simp add: unat_word_ariths unat_of_nat)
  finally have "(ucast (ems_port dev i off AND 16383) :: 32 word) = base_addr dev + of_nat off"
    by (simp only: word_unat_eq_iff)
  then have r: "ems_regsel dev (ems_port dev i off) = of_nat off"
    by (simp add: ems_regsel_def)
  show ?thesis using v r u b assms by simp
qed

theorem ems_port_decode_witness:
  "base_addr dev_258 < 0x3fff
   \<and> unat (ems_port dev_258 2 1) = 33369
   \<and> ems_vpage (ems_port dev_258 2 1) = 2
   \<and> ems_regsel dev_258 (ems_port dev_258 2 1) = 1"
proof -
  have b: "base_addr dev_258 = 0x258" by (simp add: dev_258_def)
  show ?thesis using ems_port_decode [of dev_258 2 1] by (simp add: b)
qed

section \<open>The frame register\<close>

lemma regsel_ems_write: "ems_regsel (ems_write port val dev) q = ems_regsel dev q"
  by (simp add: ems_write_def ems_regsel_def Let_def)

lemma base_addr_io_run: "base_addr (io_run xs dev) = base_addr dev"
  unfolding io_run_def
proof (induction xs arbitrary: dev)
  case Nil
  show ?case by simp
next
  case (Cons x xs)
  show ?case by (cases x) (simp_all add: Cons.IH ems_write_def Let_def)
qed

lemma regsel_io_run: "ems_regsel (io_run xs dev) q = ems_regsel dev q"
  by (simp add: ems_regsel_def base_addr_io_run)

lemma map_update_nth: "(map f xs)[i := f (xs ! i)] = map f xs"
  by (metis list_update_id map_update)

text \<open>
  C8. A write to a viewport's frame register (offset 1) stores the value there; a
  nonzero value sets the configured flag, zero leaves the flags as they are; and the
  write changes no viewport's enabled state, selected page, page address or mapping.
\<close>

theorem frame_config_write:
  assumes "ems_regsel dev port = 1"
  shows "flags (ems_write port val dev)
           = (if val \<noteq> 0 then flags dev OR FLAG_CONFIG else flags dev)
         \<and> map enabled (ems (ems_write port val dev)) = map enabled (ems dev)
         \<and> map page (ems (ems_write port val dev)) = map page (ems dev)
         \<and> map addr (ems (ems_write port val dev)) = map addr (ems dev)
         \<and> map mapping (ems (ems_write port val dev)) = map mapping (ems dev)
         \<and> map frame (ems (ems_write port val dev))
             = (map frame (ems dev))[ems_vpage port := val]"
  using assms by (simp add: ems_write_def Let_def map_update map_update_nth)

theorem frame_config_write_witness:
  "ems_regsel dev_258 0x259 = 1
   \<and> flags (ems_write 0x259 0x80 dev_258) = 1
   \<and> map enabled (ems (ems_write 0x259 0x80 dev_258)) = [0, 0, 0, 0]
   \<and> map frame (ems (ems_write 0x259 0x80 dev_258)) = [0x80, 0, 0, 0]"
proof -
  have h: "ems_regsel dev_258 0x259 = 1"
    by (simp add: ems_regsel_def dev_258_def memdev_zero_def)
  have v: "ems_vpage 0x259 = 0" by (simp add: ems_vpage_def)
  have e: "ems dev_258 = [emsreg_zero, emsreg_zero, emsreg_zero, emsreg_zero]"
    by (simp add: dev_258_def memdev_zero_def numeral_eq_Suc)
  have f: "flags dev_258 = 0" by (simp add: dev_258_def memdev_zero_def)
  show ?thesis
    using h frame_config_write [OF h, of "0x80"]
    by (simp add: v e f emsreg_zero_def flag_defs)
qed

text \<open>
  C10. A read of a viewport's frame register (offset 1) returns \<open>0xff\<close> whatever
  was written before it, to any register; and a read leaves the instance as it is.
\<close>

theorem frame_config_read:
  assumes "ems_regsel dev port = 1"
  shows "ems_read port (io_run xs dev) = 0xff
         \<and> io_step (io_run xs dev) (IoRead port) = io_run xs dev"
proof -
  have "ems_regsel (io_run xs dev) port = 1" using assms by (simp add: regsel_io_run)
  then show ?thesis by (simp add: ems_read_def Let_def)
qed

theorem frame_config_read_witness:
  "ems_regsel dev_258 0x259 = 1
   \<and> ems_read 0x259 (io_run [IoWrite 0x259 0x80, IoWrite 0x258 0x85] dev_258) = 0xff"
proof -
  have h: "ems_regsel dev_258 0x259 = 1"
    by (simp add: ems_regsel_def dev_258_def memdev_zero_def)
  show ?thesis
    using h frame_config_read [OF h, of "[IoWrite 0x259 0x80, IoWrite 0x258 0x85]"]
    by simp
qed

section \<open>What each step of the layout builder keeps\<close>

lemma ems_setup_loop_unfold:
  "ems_setup_loop 0 s =
     ems_setup_page 3 (ems_setup_page 2 (ems_setup_page 1 (ems_setup_page 0 s)))"
  by (simp add: ems_setup_loop.simps eval_nat_numeral)

lemma replicate_4: "replicate 4 x = [x, x, x, x]"
  by (simp add: eval_nat_numeral)

lemma list_update_Cons_numeral: "(x # xs)[numeral v := y] = x # xs[numeral v - 1 := y]"
  by (simp add: list_update_code numeral_eq_Suc)

lemma list_update_Cons_1: "(x # xs)[1 := y] = x # xs[0 := y]"
  by (simp add: list_update_code)

lemmas list4_simps = replicate_4 list_update_Cons_numeral list_update_Cons_1

lemma board_setup_keeps:
  "low_mapping (fst (board_setup cfg dev)) = low_mapping dev"
  "high_mapping (fst (board_setup cfg dev)) = high_mapping dev"
  "ems (fst (board_setup cfg dev)) = ems dev"
  "ems_pages (fst (board_setup cfg dev)) = ems_pages dev"
  "ems_start (fst (board_setup cfg dev)) = ems_start dev"
  "ems_size (fst (board_setup cfg dev)) = ems_size dev"
  "board (fst (board_setup cfg dev)) = board dev"
  by (simp_all add: board_setup_def Let_def)

lemma layout_start_locals:
  "l_ptr (layout_start at loc cfg) = 0"
  "l_remap (layout_start at loc cfg) = None"
  "l_io (layout_start at loc cfg) = []"
  "l_addr (layout_start at loc cfg) = start_addr (l_dev (layout_start at loc cfg))"
  "ram (l_dev (layout_start at loc cfg)) = replicate (unat (l_k (layout_start at loc cfg))) 0"
  "l_k (layout_start at loc cfg) = push_bit 10 (ucast (total_size (l_dev (layout_start at loc cfg))))"
  by (simp_all add: layout_start_def Let_def split_beta)

lemma layout_start_dev:
  "low_mapping (l_dev (layout_start at loc cfg)) = mem_mapping_zero"
  "high_mapping (l_dev (layout_start at loc cfg)) = mem_mapping_zero"
  "ems (l_dev (layout_start at loc cfg)) = replicate 4 emsreg_zero"
  "ems_pages (l_dev (layout_start at loc cfg)) = 0"
  "ems_start (l_dev (layout_start at loc cfg)) = 0"
  "ems_size (l_dev (layout_start at loc cfg)) = 0"
  by (simp_all add: layout_start_def Let_def split_beta board_setup_keeps memdev_zero_def)

lemma carve_low_keeps:
  "flags (l_dev (carve_low s)) = flags (l_dev s)"
  "ems (l_dev (carve_low s)) = ems (l_dev s)"
  "ram (l_dev (carve_low s)) = ram (l_dev s)"
  "base_addr (l_dev (carve_low s)) = base_addr (l_dev s)"
  "frame_addr (l_dev (carve_low s)) = frame_addr (l_dev s)"
  "ems_pages (l_dev (carve_low s)) = ems_pages (l_dev s)"
  "ems_start (l_dev (carve_low s)) = ems_start (l_dev s)"
  "ems_size (l_dev (carve_low s)) = ems_size (l_dev s)"
  "high_mapping (l_dev (carve_low s)) = high_mapping (l_dev s)"
  "l_k (carve_low s) = l_k s"
  "l_remap (carve_low s) = l_remap s"
  "l_io (carve_low s) = l_io s"
  by (simp_all add: carve_low_def Let_def)

lemma carve_uma_keeps:
  "l_dev (carve_uma s) = l_dev s"
  "l_k (carve_uma s) = l_k s"
  "l_io (carve_uma s) = l_io s"
  by (simp_all add: carve_uma_def Let_def)

lemma carve_conv_keeps:
  "flags (l_dev (carve_conv s)) = flags (l_dev s)"
  "ems (l_dev (carve_conv s)) = ems (l_dev s)"
  "ram (l_dev (carve_conv s)) = ram (l_dev s)"
  "base_addr (l_dev (carve_conv s)) = base_addr (l_dev s)"
  "frame_addr (l_dev (carve_conv s)) = frame_addr (l_dev s)"
  "ems_pages (l_dev (carve_conv s)) = ems_pages (l_dev s)"
  "ems_start (l_dev (carve_conv s)) = ems_start (l_dev s)"
  "ems_size (l_dev (carve_conv s)) = ems_size (l_dev s)"
  "high_mapping (l_dev (carve_conv s)) = high_mapping (l_dev s)"
  "l_io (carve_conv s) = l_io s"
  "l_k (carve_conv s) = l_k s - reserved_bytes s"
  by (simp_all add: carve_conv_def carve_low_keeps carve_uma_keeps reserved_bytes_def)

lemma carve_ext_keeps:
  "flags (l_dev (carve_ext at s)) = flags (l_dev s)"
  "ems (l_dev (carve_ext at s)) = ems (l_dev s)"
  "ram (l_dev (carve_ext at s)) = ram (l_dev s)"
  "base_addr (l_dev (carve_ext at s)) = base_addr (l_dev s)"
  "frame_addr (l_dev (carve_ext at s)) = frame_addr (l_dev s)"
  "ems_pages (l_dev (carve_ext at s)) = ems_pages (l_dev s)"
  "ems_start (l_dev (carve_ext at s)) = ems_start (l_dev s)"
  "ems_size (l_dev (carve_ext at s)) = ems_size (l_dev s)"
  "low_mapping (l_dev (carve_ext at s)) = low_mapping (l_dev s)"
  "l_k (carve_ext at s) = l_k s"
  "l_remap (carve_ext at s) = l_remap s"
  "l_io (carve_ext at s) = l_io s"
  by (simp_all add: carve_ext_def Let_def)

lemma ems_setup_page_keeps:
  "flags (l_dev (ems_setup_page i s)) = flags (l_dev s)"
  "ram (l_dev (ems_setup_page i s)) = ram (l_dev s)"
  "base_addr (l_dev (ems_setup_page i s)) = base_addr (l_dev s)"
  "frame_addr (l_dev (ems_setup_page i s)) = frame_addr (l_dev s)"
  "ems_pages (l_dev (ems_setup_page i s)) = ems_pages (l_dev s)"
  "ems_start (l_dev (ems_setup_page i s)) = ems_start (l_dev s)"
  "ems_size (l_dev (ems_setup_page i s)) = ems_size (l_dev s)"
  "low_mapping (l_dev (ems_setup_page i s)) = low_mapping (l_dev s)"
  "high_mapping (l_dev (ems_setup_page i s)) = high_mapping (l_dev s)"
  "l_k (ems_setup_page i s) = l_k s"
  "l_ptr (ems_setup_page i s) = l_ptr s"
  "l_tot (ems_setup_page i s) = l_tot s"
  "l_addr (ems_setup_page i s) = l_addr s"
  "l_remap (ems_setup_page i s) = l_remap s"
  by (simp_all add: ems_setup_page_def Let_def)

lemma ems_setup_loop_keeps:
  "flags (l_dev (ems_setup_loop 0 s)) = flags (l_dev s)"
  "ram (l_dev (ems_setup_loop 0 s)) = ram (l_dev s)"
  "base_addr (l_dev (ems_setup_loop 0 s)) = base_addr (l_dev s)"
  "frame_addr (l_dev (ems_setup_loop 0 s)) = frame_addr (l_dev s)"
  "ems_pages (l_dev (ems_setup_loop 0 s)) = ems_pages (l_dev s)"
  "ems_start (l_dev (ems_setup_loop 0 s)) = ems_start (l_dev s)"
  "ems_size (l_dev (ems_setup_loop 0 s)) = ems_size (l_dev s)"
  "low_mapping (l_dev (ems_setup_loop 0 s)) = low_mapping (l_dev s)"
  "high_mapping (l_dev (ems_setup_loop 0 s)) = high_mapping (l_dev s)"
  "l_k (ems_setup_loop 0 s) = l_k s"
  "l_ptr (ems_setup_loop 0 s) = l_ptr s"
  "l_tot (ems_setup_loop 0 s) = l_tot s"
  "l_addr (ems_setup_loop 0 s) = l_addr s"
  "l_remap (ems_setup_loop 0 s) = l_remap s"
  by (simp_all add: ems_setup_loop_unfold ems_setup_page_keeps)

lemma ems_setup_loop_ems:
  assumes "ems (l_dev s) = [e0, e1, e2, e3]"
  shows "ems (l_dev (ems_setup_loop 0 s)) =
           [e0\<lparr>mapping := viewport_window s 0\<rparr>, e1\<lparr>mapping := viewport_window s 1\<rparr>,
            e2\<lparr>mapping := viewport_window s 2\<rparr>, e3\<lparr>mapping := viewport_window s 3\<rparr>]"
  using assms
  by (simp add: ems_setup_loop_unfold ems_setup_page_def Let_def list4_simps mapping_defs
      viewport_window_def)

lemma ems_setup_loop_io:
  "l_io (ems_setup_loop 0 s) =
     l_io s @ [ucast (base_addr (l_dev s)), ucast (base_addr (l_dev s) + 16384),
               ucast (base_addr (l_dev s) + 32768), ucast (base_addr (l_dev s) + 49152)]"
  by (simp add: ems_setup_loop_unfold ems_setup_page_def Let_def)

lemma carve_low_conserve:
  "l_ptr (carve_low s) + unat (l_tot (carve_low s)) = l_ptr s + unat (l_tot s)"
  by (auto simp add: carve_low_def Let_def unat_sub word_le_nat_alt word_less_nat_alt)

lemma carve_uma_conserve:
  "l_ptr (carve_uma s) + unat (l_tot (carve_uma s)) = l_ptr s + unat (l_tot s)"
  by (auto simp add: carve_uma_def Let_def unat_sub word_le_nat_alt word_less_nat_alt)

lemma carve_ext_conserve:
  "l_ptr (carve_ext at s) + unat (l_tot (carve_ext at s)) = l_ptr s + unat (l_tot s)"
  by (auto simp add: carve_ext_def Let_def)

lemma carve_conv_conserve:
  "l_ptr (carve_conv s) + unat (l_tot (carve_conv s)) = l_ptr s + unat (l_tot s)"
  by (simp add: carve_conv_def carve_uma_conserve carve_low_conserve)

lemma carve_low_size:
  "unat (m_size (low_mapping (l_dev (carve_low s))))
     \<le> max (unat (m_size (low_mapping (l_dev s)))) (unat (l_tot s))"
  by (auto simp add: carve_low_def Let_def mapping_defs word_le_nat_alt word_less_nat_alt)

lemma carve_uma_size:
  "l_remap (carve_uma s) = Some mp \<Longrightarrow> l_remap s = Some mp \<or> unat (m_size mp) \<le> unat (l_tot s)"
  by (auto simp add: carve_uma_def Let_def mapping_defs word_le_nat_alt split: if_splits)

lemma carve_ext_size:
  "unat (m_size (high_mapping (l_dev (carve_ext at s))))
     \<le> max (unat (m_size (high_mapping (l_dev s)))) (unat (l_tot s))"
  by (auto simp add: carve_ext_def Let_def mapping_defs)

section \<open>The layout as a whole\<close>

lemma setup_ems_keeps:
  "flags (l_dev (setup_ems s)) = flags (l_dev s)"
  "ram (l_dev (setup_ems s)) = ram (l_dev s)"
  "base_addr (l_dev (setup_ems s)) = base_addr (l_dev s)"
  "frame_addr (l_dev (setup_ems s)) = frame_addr (l_dev s)"
  "low_mapping (l_dev (setup_ems s)) = low_mapping (l_dev s)"
  "high_mapping (l_dev (setup_ems s)) = high_mapping (l_dev s)"
  "l_ptr (setup_ems s) = l_ptr s"
  "l_remap (setup_ems s) = l_remap s"
  by (simp_all add: setup_ems_def Let_def ems_setup_loop_keeps)

lemma setup_ems_off:
  "flags (l_dev s) AND FLAG_EMS = 0 \<Longrightarrow> setup_ems s = s"
  by (simp add: setup_ems_def)

lemma setup_ems_pool:
  assumes "flags (l_dev s) AND FLAG_EMS \<noteq> 0"
  shows "ems_start (l_dev (setup_ems s)) = of_nat (l_ptr s)"
    and "ems_pages (l_dev (setup_ems s))
           = ucast ((if l_k s > EMS_MAXSIZE then EMS_MAXSIZE else l_k s) div EMS_PGSIZE)"
    and "ems_size (l_dev (setup_ems s))
           = ucast (drop_bit 10 (if l_k s > EMS_MAXSIZE then EMS_MAXSIZE else l_k s))"
  using assms by (simp_all add: setup_ems_def Let_def ems_setup_loop_keeps)

lemma setup_ems_ems:
  assumes "flags (l_dev s) AND FLAG_EMS \<noteq> 0" and "ems (l_dev s) = [e0, e1, e2, e3]"
  shows "ems (l_dev (setup_ems s)) =
           [e0\<lparr>mapping := viewport_window s 0\<rparr>, e1\<lparr>mapping := viewport_window s 1\<rparr>,
            e2\<lparr>mapping := viewport_window s 2\<rparr>, e3\<lparr>mapping := viewport_window s 3\<rparr>]"
proof -
  let ?s = "s\<lparr>l_dev := (l_dev s)\<lparr>ems_start := of_nat (l_ptr s),
      ems_size := ucast (drop_bit 10 (if l_k s > EMS_MAXSIZE then EMS_MAXSIZE else l_k s)),
      ems_pages := ucast ((if l_k s > EMS_MAXSIZE then EMS_MAXSIZE else l_k s) div EMS_PGSIZE)\<rparr>\<rparr>"
  have e: "ems (l_dev ?s) = [e0, e1, e2, e3]" using assms(2) by simp
  have w: "viewport_window ?s i = viewport_window s i" for i
    by (simp add: viewport_window_def)
  have "setup_ems s = ems_setup_loop 0 ?s" using assms(1) by (simp add: setup_ems_def Let_def)
  then show ?thesis using ems_setup_loop_ems [OF e] by (simp add: w)
qed

lemma init_keeps:
  "flags (l_dev (isamem_init at loc cfg)) = flags (l_dev (layout_start at loc cfg))"
  "ram (l_dev (isamem_init at loc cfg)) = ram (l_dev (layout_start at loc cfg))"
  "base_addr (l_dev (isamem_init at loc cfg)) = base_addr (l_dev (layout_start at loc cfg))"
  "frame_addr (l_dev (isamem_init at loc cfg)) = frame_addr (l_dev (layout_start at loc cfg))"
  by (simp_all add: isamem_init_def setup_ems_keeps carve_ext_keeps carve_conv_keeps)

lemma init_ram_length:
  "length (ram (l_dev (isamem_init at loc cfg))) = unat (l_k (layout_start at loc cfg))"
  by (simp add: init_keeps layout_start_locals(5))

lemma carved_le:
  "l_ptr (carve_ext at (carve_conv s)) \<le> l_ptr s + unat (reserved_bytes s)"
proof (cases "l_addr s > 0 \<and> l_tot s > 0")
  case True
  have "l_ptr (carve_ext at (carve_conv s)) + unat (l_tot (carve_ext at (carve_conv s)))
          = l_ptr s + unat (l_tot s)"
    by (simp add: carve_ext_conserve carve_conv_conserve)
  then show ?thesis using True by (simp add: reserved_bytes_def)
next
  case False
  then have "carve_ext at (carve_conv s) = s"
    by (auto simp add: carve_conv_def carve_ext_def)
  then show ?thesis by simp
qed

lemma init_not_ems:
  assumes "flags (l_dev (layout_start at loc cfg)) AND FLAG_EMS = 0"
  shows "ems_start (l_dev (isamem_init at loc cfg)) = 0"
    and "ems_pages (l_dev (isamem_init at loc cfg)) = 0"
    and "ems (l_dev (isamem_init at loc cfg)) = replicate 4 emsreg_zero"
  using assms
  by (simp_all add: isamem_init_def setup_ems_off carve_ext_keeps carve_conv_keeps
      layout_start_dev)

lemma unat_ucast_32_16: "unat (w :: 32 word) < 65536 \<Longrightarrow> unat (ucast w :: 16 word) = unat w"
proof -
  assume "unat w < 65536"
  then have "take_bit 16 (unat w) = unat w" by (simp add: take_bit_nat_eq_self)
  moreover have "unat (ucast w :: 16 word) = take_bit 16 (unat w)"
    using unsigned_ucast_eq [of w, where 'c = 16 and 'a = nat] by simp
  ultimately show ?thesis by simp
qed

lemma init_ems_pages:
  assumes "flags (l_dev (layout_start at loc cfg)) AND FLAG_EMS \<noteq> 0"
  shows "unat (ems_pages (l_dev (isamem_init at loc cfg)))
           = min (unat (l_k (layout_start at loc cfg) - reserved_bytes (layout_start at loc cfg)))
                 2097152 div 16384"
proof -
  let ?s = "carve_ext at (carve_conv (layout_start at loc cfg))"
  let ?k = "l_k (layout_start at loc cfg) - reserved_bytes (layout_start at loc cfg)"
  let ?t = "if ?k > EMS_MAXSIZE then EMS_MAXSIZE else ?k"
  have f: "flags (l_dev ?s) AND FLAG_EMS \<noteq> 0"
    using assms by (simp add: carve_ext_keeps carve_conv_keeps)
  have k: "l_k ?s = ?k" by (simp add: carve_ext_keeps carve_conv_keeps)
  have p: "ems_pages (l_dev (isamem_init at loc cfg)) = ucast (?t div EMS_PGSIZE)"
    using setup_ems_pool(2) [OF f] by (simp add: isamem_init_def k)
  have t: "unat ?t = min (unat ?k) 2097152"
    by (simp add: word_less_nat_alt min_def)
  have "unat (?t div EMS_PGSIZE) = unat ?t div 16384" by (simp add: unat_div)
  moreover have "unat ?t div 16384 < 65536" using t by simp
  ultimately show ?thesis using t by (simp add: p unat_ucast_32_16)
qed

section \<open>The layout of an EV-159\<close>

lemma layout_start_board10:
  "l_k (layout_start at 10 cfg) = push_bit 10 (ucast (word_of_int (cfg_size cfg) :: 16 word))"
  "l_tot (layout_start at 10 cfg) = push_bit 10 (word_of_int (cfg_length cfg))"
  "l_addr (layout_start at 10 cfg) = push_bit 10 (word_of_int (cfg_start cfg))"
  "total_size (l_dev (layout_start at 10 cfg)) = word_of_int (cfg_size cfg)"
  "frame_addr (l_dev (layout_start at 10 cfg)) = 0xE0000"
  "base_addr (l_dev (layout_start at 10 cfg)) = word_of_int (cfg_base cfg)"
  by (simp_all add: layout_start_def board_setup_def Let_def memdev_zero_def)

lemma layout_start_board10_flags:
  "flags (l_dev (layout_start at 10 cfg)) AND FLAG_EMS \<noteq> 0 \<longleftrightarrow> cfg_ems cfg \<noteq> 0"
  "flags (l_dev (layout_start at 10 cfg)) AND FLAG_WIDE \<noteq> 0 \<longleftrightarrow> at \<and> cfg_width cfg \<noteq> 0"
  "flags (l_dev (layout_start at 10 cfg)) AND FLAG_CONFIG = 0"
  by (simp_all add: layout_start_def board_setup_def Let_def memdev_zero_def flag_defs)

lemma no_carving:
  "l_addr s = 0 \<or> l_tot s = 0 \<Longrightarrow> carve_ext at (carve_conv s) = s"
  by (auto simp add: carve_conv_def carve_ext_def)

lemma init_total_size:
  "total_size (l_dev (isamem_init at loc cfg)) = total_size (l_dev (layout_start at loc cfg))"
  by (simp add: isamem_init_def setup_ems_def carve_ext_def carve_conv_def carve_uma_def
      carve_low_def Let_def ems_setup_loop_unfold ems_setup_page_def)

lemma init_ptr:
  "l_ptr (isamem_init at loc cfg) = l_ptr (carve_ext at (carve_conv (layout_start at loc cfg)))"
  by (simp add: isamem_init_def setup_ems_keeps)

lemma init_ems_start:
  assumes "flags (l_dev (layout_start at loc cfg)) AND FLAG_EMS \<noteq> 0"
  shows "ems_start (l_dev (isamem_init at loc cfg)) = of_nat (l_ptr (isamem_init at loc cfg))"
proof -
  let ?s = "carve_ext at (carve_conv (layout_start at loc cfg))"
  have f: "flags (l_dev ?s) AND FLAG_EMS \<noteq> 0"
    using assms by (simp add: carve_ext_keeps carve_conv_keeps)
  show ?thesis using setup_ems_pool(1) [OF f] by (simp add: isamem_init_def setup_ems_keeps)
qed

text \<open>
  Where the bytes set aside for plain RAM fit the buffer, the pool lies in the buffer.
\<close>

lemma pool_in_buffer:
  assumes "reserved_bytes (layout_start at loc cfg) \<le> l_k (layout_start at loc cfg)"
  shows "unat (ems_start (l_dev (isamem_init at loc cfg)))
           + unat (ems_pages (l_dev (isamem_init at loc cfg))) * 16384
         \<le> length (ram (l_dev (isamem_init at loc cfg)))"
proof (cases "flags (l_dev (layout_start at loc cfg)) AND FLAG_EMS = 0")
  case True
  then show ?thesis by (simp add: init_not_ems)
next
  case False
  let ?s0 = "layout_start at loc cfg"
  have c: "l_ptr (isamem_init at loc cfg) \<le> unat (reserved_bytes ?s0)"
    using carved_le [of at ?s0] by (simp add: init_ptr layout_start_locals(1))
  have r: "unat (reserved_bytes ?s0) \<le> unat (l_k ?s0)"
    using assms by (simp add: word_le_nat_alt)
  have "unat (reserved_bytes ?s0) < 2 ^ 32" using unsigned_less [of "reserved_bytes ?s0"] by simp
  then have "l_ptr (isamem_init at loc cfg) < 2 ^ 32" using c by simp
  then have s: "unat (ems_start (l_dev (isamem_init at loc cfg))) = l_ptr (isamem_init at loc cfg)"
    by (simp add: init_ems_start [OF False] unat_of_nat)
  have k: "unat (l_k ?s0 - reserved_bytes ?s0) = unat (l_k ?s0) - unat (reserved_bytes ?s0)"
    using assms by (simp add: unat_sub)
  have "unat (ems_pages (l_dev (isamem_init at loc cfg))) * 16384
          \<le> unat (l_k ?s0) - unat (reserved_bytes ?s0)"
    by (simp add: init_ems_pages [OF False] k)
  then show ?thesis using c r s by (simp add: init_ram_length)
qed

section \<open>The EMS pool\<close>

text \<open>
  C4, as amended. With EMS enabled, \<open>ems_pages\<close> is \<open>min(pool_bytes, 2048 * 1024) / 16384\<close>
  where \<open>pool_bytes\<close> is the size of the RAM buffer less the bytes the configuration sets
  aside for plain RAM (\<open>tot\<close>, when the start address and \<open>tot\<close> are both nonzero),
  whether or not the carving mapped all of them, provided they fit the buffer; with a
  start address of zero the pool is the whole buffer.
\<close>

theorem ems_pool_pages:
  assumes "flags (l_dev (isamem_init at loc cfg)) AND FLAG_EMS \<noteq> 0"
    and "reserved_bytes (layout_start at loc cfg) \<le> l_k (layout_start at loc cfg)"
  shows "unat (ems_pages (l_dev (isamem_init at loc cfg)))
           = min (length (ram (l_dev (isamem_init at loc cfg)))
                    - unat (reserved_bytes (layout_start at loc cfg))) (2048 * 1024) div 16384
         \<and> (start_addr (l_dev (layout_start at loc cfg)) = 0
              \<longrightarrow> unat (ems_pages (l_dev (isamem_init at loc cfg)))
                    = min (length (ram (l_dev (isamem_init at loc cfg)))) (2048 * 1024) div 16384)"
proof -
  let ?s0 = "layout_start at loc cfg"
  have f: "flags (l_dev ?s0) AND FLAG_EMS \<noteq> 0" using assms(1) by (simp add: init_keeps)
  have k: "unat (l_k ?s0 - reserved_bytes ?s0) = unat (l_k ?s0) - unat (reserved_bytes ?s0)"
    using assms(2) by (simp add: unat_sub)
  have p: "unat (ems_pages (l_dev (isamem_init at loc cfg)))
             = min (length (ram (l_dev (isamem_init at loc cfg))) - unat (reserved_bytes ?s0))
                 (2048 * 1024) div 16384"
    by (simp add: init_ems_pages [OF f] k init_ram_length)
  have z: "start_addr (l_dev ?s0) = 0 \<Longrightarrow> reserved_bytes ?s0 = 0"
    by (simp add: reserved_bytes_def layout_start_locals(4))
  show ?thesis using p z by auto
qed

theorem ems_pool_pages_witness:
  "flags (l_dev (isamem_init False 10 (ev159_cfg 1024 256 384))) AND FLAG_EMS \<noteq> 0
   \<and> reserved_bytes (layout_start False 10 (ev159_cfg 1024 256 384)) = 393216
   \<and> l_k (layout_start False 10 (ev159_cfg 1024 256 384)) = 1048576
   \<and> length (ram (l_dev (isamem_init False 10 (ev159_cfg 1024 256 384)))) = 1048576
   \<and> unat (ems_pages (l_dev (isamem_init False 10 (ev159_cfg 1024 256 384)))) = 40"
proof -
  have f: "flags (l_dev (isamem_init False 10 (ev159_cfg 1024 256 384))) AND FLAG_EMS \<noteq> 0"
    by (simp add: init_keeps layout_start_board10_flags ev159_cfg_def)
  have r: "reserved_bytes (layout_start False 10 (ev159_cfg 1024 256 384)) = 393216"
    by (simp add: reserved_bytes_def layout_start_board10 ev159_cfg_def)
  have k: "l_k (layout_start False 10 (ev159_cfg 1024 256 384)) = 1048576"
    by (simp add: layout_start_board10 ev159_cfg_def)
  have v: "reserved_bytes (layout_start False 10 (ev159_cfg 1024 256 384))
             \<le> l_k (layout_start False 10 (ev159_cfg 1024 256 384))"
    by (simp add: r k)
  have n: "length (ram (l_dev (isamem_init False 10 (ev159_cfg 1024 256 384)))) = 1048576"
    by (simp add: init_ram_length k)
  show ?thesis using ems_pool_pages [OF f v] f by (simp add: r k n)
qed

text \<open>
  C4 as the specification states it fails: on a machine that is not an AT, an EV-159
  with 1024 KB, start address 256 KB and a contiguous size of 512 KB maps 384 KB and has
  640 KB left in the buffer after the carving, yet its pool has 32 pages, not 40.
\<close>

theorem ems_pool_pages_counterexample:
  "flags (l_dev (isamem_init False 10 (ev159_cfg 1024 256 512))) AND FLAG_EMS \<noteq> 0
   \<and> spec_pool_bytes (isamem_init False 10 (ev159_cfg 1024 256 512)) = 655360
   \<and> spec_ems_pages (isamem_init False 10 (ev159_cfg 1024 256 512)) = 40
   \<and> unat (ems_pages (l_dev (isamem_init False 10 (ev159_cfg 1024 256 512)))) = 32"
proof -
  have f: "flags (l_dev (layout_start False 10 (ev159_cfg 1024 256 512))) AND FLAG_EMS \<noteq> 0"
    by (simp add: layout_start_board10_flags ev159_cfg_def)
  have r: "reserved_bytes (layout_start False 10 (ev159_cfg 1024 256 512)) = 524288"
    by (simp add: reserved_bytes_def layout_start_board10 ev159_cfg_def)
  have k: "l_k (layout_start False 10 (ev159_cfg 1024 256 512)) = 1048576"
    by (simp add: layout_start_board10 ev159_cfg_def)
  have p: "l_ptr (isamem_init False 10 (ev159_cfg 1024 256 512)) = 393216"
    by (simp add: init_ptr carve_ext_def carve_conv_def carve_uma_def carve_low_def Let_def
        layout_start_board10 layout_start_locals(1-3) ev159_cfg_def)
  have n: "length (ram (l_dev (isamem_init False 10 (ev159_cfg 1024 256 512)))) = 1048576"
    by (simp add: init_ram_length k)
  have b: "spec_pool_bytes (isamem_init False 10 (ev159_cfg 1024 256 512)) = 655360"
    by (simp add: spec_pool_bytes_def p n)
  have e: "unat (ems_pages (l_dev (isamem_init False 10 (ev159_cfg 1024 256 512)))) = 32"
    by (simp add: init_ems_pages [OF f] r k)
  show ?thesis using f by (simp add: init_keeps spec_ems_pages_def b e)
qed

section \<open>The scenarios\<close>

text \<open>
  C5, as amended. On a machine that is not an AT, an EV-159 with 1024 KB, start address
  256 KB and a contiguous size of 384 KB (whatever its other options) gets the
  conventional region \<open>[262144, 655360)\<close> as plain RAM, backed from the start of the
  buffer, no remap window and no extended region; with EMS enabled the remaining
  640 KB are the pool, \<open>ems_pages = 40\<close>, starting at byte 393216 of the buffer.
\<close>

theorem scenario_A:
  "low_mapping (l_dev (isamem_init False 10
       (cfg\<lparr>cfg_size := 1024, cfg_start := 256, cfg_length := 384\<rparr>)))
     = mem_mapping_add 262144 393216 False 0
   \<and> high_mapping (l_dev (isamem_init False 10
       (cfg\<lparr>cfg_size := 1024, cfg_start := 256, cfg_length := 384\<rparr>))) = mem_mapping_zero
   \<and> l_remap (isamem_init False 10
       (cfg\<lparr>cfg_size := 1024, cfg_start := 256, cfg_length := 384\<rparr>)) = None
   \<and> length (ram (l_dev (isamem_init False 10
       (cfg\<lparr>cfg_size := 1024, cfg_start := 256, cfg_length := 384\<rparr>)))) = 1048576
   \<and> (if cfg_ems cfg \<noteq> 0
      then ems_start (l_dev (isamem_init False 10
               (cfg\<lparr>cfg_size := 1024, cfg_start := 256, cfg_length := 384\<rparr>))) = 393216
         \<and> ems_size (l_dev (isamem_init False 10
               (cfg\<lparr>cfg_size := 1024, cfg_start := 256, cfg_length := 384\<rparr>))) = 640
         \<and> ems_pages (l_dev (isamem_init False 10
               (cfg\<lparr>cfg_size := 1024, cfg_start := 256, cfg_length := 384\<rparr>))) = 40
      else ems_pages (l_dev (isamem_init False 10
               (cfg\<lparr>cfg_size := 1024, cfg_start := 256, cfg_length := 384\<rparr>))) = 0)"
proof -
  let ?c = "cfg\<lparr>cfg_size := 1024, cfg_start := 256, cfg_length := 384\<rparr>"
  let ?s0 = "layout_start False 10 ?c"
  let ?s1 = "carve_ext False (carve_conv ?s0)"
  note st = layout_start_board10 [of False ?c] layout_start_locals(1-3) [of False 10 ?c]
    layout_start_dev(1,2) [of False 10 ?c]
  have w: "flags (l_dev ?s0) AND FLAG_WIDE = 0"
    using layout_start_board10_flags(2) [of False ?c] by simp
  have k: "l_k ?s0 = 1048576" by (simp add: st)
  have lo: "low_mapping (l_dev ?s1) = mem_mapping_add 262144 393216 False 0"
    by (simp add: carve_ext_def carve_conv_def carve_uma_def carve_low_def Let_def st w)
  have hi: "high_mapping (l_dev ?s1) = mem_mapping_zero"
    by (simp add: carve_ext_def carve_conv_def carve_uma_def carve_low_def Let_def st)
  have re: "l_remap ?s1 = None"
    by (simp add: carve_ext_def carve_conv_def carve_uma_def carve_low_def Let_def st)
  have pt: "l_ptr ?s1 = 393216"
    by (simp add: carve_ext_def carve_conv_def carve_uma_def carve_low_def Let_def st)
  have k1: "l_k ?s1 = 655360"
    by (simp add: carve_ext_keeps carve_conv_keeps reserved_bytes_def st)
  have f1: "flags (l_dev ?s1) = flags (l_dev ?s0)"
    by (simp add: carve_ext_keeps carve_conv_keeps)
  have c1: "low_mapping (l_dev (isamem_init False 10 ?c)) = mem_mapping_add 262144 393216 False 0"
    by (simp add: isamem_init_def setup_ems_keeps lo)
  have c2: "high_mapping (l_dev (isamem_init False 10 ?c)) = mem_mapping_zero"
    by (simp add: isamem_init_def setup_ems_keeps hi)
  have c3: "l_remap (isamem_init False 10 ?c) = None"
    by (simp add: isamem_init_def setup_ems_keeps re)
  have c4: "length (ram (l_dev (isamem_init False 10 ?c))) = 1048576"
    by (simp add: init_ram_length k)
  have c5: "ems_start (l_dev (isamem_init False 10 ?c)) = 393216
            \<and> ems_size (l_dev (isamem_init False 10 ?c)) = 640
            \<and> ems_pages (l_dev (isamem_init False 10 ?c)) = 40" if "cfg_ems cfg \<noteq> 0"
  proof -
    have "flags (l_dev ?s1) AND FLAG_EMS \<noteq> 0"
      using that layout_start_board10_flags(1) [of False ?c] by (simp add: f1)
    from setup_ems_pool [OF this] show ?thesis
      by (simp add: isamem_init_def pt k1 drop_bit_eq_div)
  qed
  have c6: "ems_pages (l_dev (isamem_init False 10 ?c)) = 0" if "cfg_ems cfg = 0"
  proof -
    have "flags (l_dev ?s0) AND FLAG_EMS = 0"
      using that layout_start_board10_flags(1) [of False ?c] by simp
    then show ?thesis by (rule init_not_ems(2))
  qed
  show ?thesis using c1 c2 c3 c4 c5 c6 by simp
qed

text \<open>
  C5 as the specification states it fails: it does not fix the contiguous size. With
  the EV-159's default contiguous size, 0, the same sizes give no conventional region at
  all and a pool of 64 pages.
\<close>

theorem scenario_A_counterexample:
  "flags (l_dev (isamem_init False 10 (ev159_cfg 1024 256 0))) AND FLAG_EMS \<noteq> 0
   \<and> low_mapping (l_dev (isamem_init False 10 (ev159_cfg 1024 256 0))) = mem_mapping_zero
   \<and> unat (ems_pages (l_dev (isamem_init False 10 (ev159_cfg 1024 256 0)))) = 64"
proof -
  let ?s0 = "layout_start False 10 (ev159_cfg 1024 256 0)"
  have f: "flags (l_dev ?s0) AND FLAG_EMS \<noteq> 0"
    by (simp add: layout_start_board10_flags ev159_cfg_def)
  have t: "l_tot ?s0 = 0" by (simp add: layout_start_board10 ev159_cfg_def)
  have r: "reserved_bytes ?s0 = 0" by (simp add: reserved_bytes_def t)
  have k: "l_k ?s0 = 1048576" by (simp add: layout_start_board10 ev159_cfg_def)
  have "carve_ext False (carve_conv ?s0) = ?s0" by (rule no_carving) (simp add: t)
  then have lo: "low_mapping (l_dev (isamem_init False 10 (ev159_cfg 1024 256 0))) = mem_mapping_zero"
    by (simp add: isamem_init_def setup_ems_keeps layout_start_dev)
  have e: "unat (ems_pages (l_dev (isamem_init False 10 (ev159_cfg 1024 256 0)))) = 64"
    by (simp add: init_ems_pages [OF f] r k)
  show ?thesis using f by (simp add: init_keeps lo e)
qed

theorem scenario_A_witness:
  "low_mapping (l_dev (isamem_init False 10 (ev159_cfg 1024 256 384)))
     = mem_mapping_add 262144 393216 False 0
   \<and> ems_start (l_dev (isamem_init False 10 (ev159_cfg 1024 256 384))) = 393216
   \<and> ems_pages (l_dev (isamem_init False 10 (ev159_cfg 1024 256 384))) = 40"
proof -
  have c: "(ev159_cfg 1024 256 384)\<lparr>cfg_size := 1024, cfg_start := 256, cfg_length := 384\<rparr>
             = ev159_cfg 1024 256 384"
    by (simp add: ev159_cfg_def)
  have e: "cfg_ems (ev159_cfg 1024 256 384) \<noteq> 0" by (simp add: ev159_cfg_def)
  show ?thesis using scenario_A [of "ev159_cfg 1024 256 384"] unfolding c by (simp add: e)
qed

text \<open>
  C6. An EV-159 (the board whose frame is at \<open>0xE0000\<close>) with 512 KB, start address 0
  and EMS enabled, on any machine and whatever its other options: nothing is carved,
  the whole 512 KB buffer is the pool, \<open>ems_pages = 32\<close>, and the four viewport windows
  of 16 KB are registered at \<open>0xE0000\<close>, \<open>0xE4000\<close>, \<open>0xE8000\<close> and \<open>0xEC000\<close>, each
  disabled, with the register's enabled field clear.
\<close>

theorem scenario_B:
  "low_mapping (l_dev (isamem_init at 10 (cfg\<lparr>cfg_size := 512, cfg_start := 0, cfg_ems := 1\<rparr>)))
     = mem_mapping_zero
   \<and> high_mapping (l_dev (isamem_init at 10 (cfg\<lparr>cfg_size := 512, cfg_start := 0, cfg_ems := 1\<rparr>)))
     = mem_mapping_zero
   \<and> l_remap (isamem_init at 10 (cfg\<lparr>cfg_size := 512, cfg_start := 0, cfg_ems := 1\<rparr>)) = None
   \<and> length (ram (l_dev (isamem_init at 10 (cfg\<lparr>cfg_size := 512, cfg_start := 0, cfg_ems := 1\<rparr>))))
     = 524288
   \<and> ems_start (l_dev (isamem_init at 10 (cfg\<lparr>cfg_size := 512, cfg_start := 0, cfg_ems := 1\<rparr>))) = 0
   \<and> ems_size (l_dev (isamem_init at 10 (cfg\<lparr>cfg_size := 512, cfg_start := 0, cfg_ems := 1\<rparr>))) = 512
   \<and> ems_pages (l_dev (isamem_init at 10 (cfg\<lparr>cfg_size := 512, cfg_start := 0, cfg_ems := 1\<rparr>))) = 32
   \<and> frame_addr (l_dev (isamem_init at 10 (cfg\<lparr>cfg_size := 512, cfg_start := 0, cfg_ems := 1\<rparr>)))
     = 0xE0000
   \<and> map (\<lambda>e. (m_base (mapping e), m_size (mapping e), m_enable (mapping e), enabled e))
         (ems (l_dev (isamem_init at 10 (cfg\<lparr>cfg_size := 512, cfg_start := 0, cfg_ems := 1\<rparr>))))
     = [(0xE0000, 16384, False, 0), (0xE4000, 16384, False, 0),
        (0xE8000, 16384, False, 0), (0xEC000, 16384, False, 0)]"
proof -
  let ?c = "cfg\<lparr>cfg_size := 512, cfg_start := 0, cfg_ems := 1\<rparr>"
  let ?s0 = "layout_start at 10 ?c"
  note st = layout_start_board10 [of at ?c] layout_start_locals(1-3) [of at 10 ?c]
    layout_start_dev [of at 10 ?c]
  have f: "flags (l_dev ?s0) AND FLAG_EMS \<noteq> 0"
    using layout_start_board10_flags(1) [of at ?c] by simp
  have k: "l_k ?s0 = 524288" by (simp add: st)
  have nc: "carve_ext at (carve_conv ?s0) = ?s0" by (rule no_carving) (simp add: st)
  have i: "isamem_init at 10 ?c = setup_ems ?s0" by (simp add: isamem_init_def nc)
  have c1: "low_mapping (l_dev (isamem_init at 10 ?c)) = mem_mapping_zero"
    by (simp add: i setup_ems_keeps st)
  have c2: "high_mapping (l_dev (isamem_init at 10 ?c)) = mem_mapping_zero"
    by (simp add: i setup_ems_keeps st)
  have c3: "l_remap (isamem_init at 10 ?c) = None" by (simp add: i setup_ems_keeps st)
  have c4: "length (ram (l_dev (isamem_init at 10 ?c))) = 524288"
    by (simp add: init_ram_length k)
  have c5: "ems_start (l_dev (isamem_init at 10 ?c)) = 0
            \<and> ems_size (l_dev (isamem_init at 10 ?c)) = 512
            \<and> ems_pages (l_dev (isamem_init at 10 ?c)) = 32"
    using setup_ems_pool [OF f] by (simp add: i k st drop_bit_eq_div)
  have c6: "frame_addr (l_dev (isamem_init at 10 ?c)) = 0xE0000" by (simp add: init_keeps st)
  have e0: "ems (l_dev ?s0) = [emsreg_zero, emsreg_zero, emsreg_zero, emsreg_zero]"
    by (simp add: st replicate_4)
  have c7: "map (\<lambda>e. (m_base (mapping e), m_size (mapping e), m_enable (mapping e), enabled e))
              (ems (l_dev (isamem_init at 10 ?c)))
            = [(0xE0000, 16384, False, 0), (0xE4000, 16384, False, 0),
               (0xE8000, 16384, False, 0), (0xEC000, 16384, False, 0)]"
    using setup_ems_ems [OF f e0] by (simp add: i viewport_window_def st emsreg_zero_def)
  show ?thesis using c1 c2 c3 c4 c5 c6 c7 by simp
qed

theorem scenario_B_witness:
  "ems_pages (l_dev (isamem_init True 10 (ev159_cfg 512 0 0))) = 32
   \<and> map (\<lambda>e. (m_base (mapping e), m_size (mapping e), m_enable (mapping e), enabled e))
         (ems (l_dev (isamem_init True 10 (ev159_cfg 512 0 0))))
     = [(0xE0000, 16384, False, 0), (0xE4000, 16384, False, 0),
        (0xE8000, 16384, False, 0), (0xEC000, 16384, False, 0)]"
proof -
  have c: "(ev159_cfg 512 0 0)\<lparr>cfg_size := 512, cfg_start := 0, cfg_ems := 1\<rparr> = ev159_cfg 512 0 0"
    by (simp add: ev159_cfg_def)
  show ?thesis using scenario_B [of True "ev159_cfg 512 0 0"] unfolding c by simp
qed

section \<open>The pool and the buffer\<close>

text \<open>
  C9 fails on the code. The EV-159's option table lets the contiguous size exceed the
  memory size. \<open>k -= tot\<close> then wraps around in 32 bits, the pool is capped at 2048 KB,
  and it is recorded past the end of the buffer: with 512 KB of memory, start address
  256 KB and a contiguous size of 1024 KB, on a machine that is not an AT, the pool is
  128 pages from byte 786432 of a buffer of 524288 bytes.
\<close>

theorem pool_outside_buffer:
  "flags (l_dev (isamem_init False 10 (ev159_cfg 512 256 1024))) AND FLAG_EMS \<noteq> 0
   \<and> unat (total_size (l_dev (isamem_init False 10 (ev159_cfg 512 256 1024)))) * 1024 = 524288
   \<and> length (ram (l_dev (isamem_init False 10 (ev159_cfg 512 256 1024)))) = 524288
   \<and> unat (ems_start (l_dev (isamem_init False 10 (ev159_cfg 512 256 1024)))) = 786432
   \<and> unat (ems_pages (l_dev (isamem_init False 10 (ev159_cfg 512 256 1024)))) = 128
   \<and> \<not> unat (ems_start (l_dev (isamem_init False 10 (ev159_cfg 512 256 1024))))
         + unat (ems_pages (l_dev (isamem_init False 10 (ev159_cfg 512 256 1024)))) * 16384
       \<le> unat (total_size (l_dev (isamem_init False 10 (ev159_cfg 512 256 1024)))) * 1024"
proof -
  let ?c = "ev159_cfg 512 256 1024"
  let ?s0 = "layout_start False 10 ?c"
  note st = layout_start_board10 layout_start_locals(1-3)
  have f: "flags (l_dev ?s0) AND FLAG_EMS \<noteq> 0"
    by (simp add: layout_start_board10_flags ev159_cfg_def)
  have k: "l_k ?s0 = 524288" by (simp add: st ev159_cfg_def)
  have r: "reserved_bytes ?s0 = 1048576" by (simp add: reserved_bytes_def st ev159_cfg_def)
  have ts: "unat (total_size (l_dev (isamem_init False 10 ?c))) * 1024 = 524288"
    by (simp add: init_total_size st ev159_cfg_def)
  have n: "length (ram (l_dev (isamem_init False 10 ?c))) = 524288"
    by (simp add: init_ram_length k)
  have p: "l_ptr (isamem_init False 10 ?c) = 786432"
    by (simp add: init_ptr carve_ext_def carve_conv_def carve_uma_def carve_low_def Let_def
        st ev159_cfg_def)
  have es: "unat (ems_start (l_dev (isamem_init False 10 ?c))) = 786432"
    by (simp add: init_ems_start [OF f] p)
  have ep: "unat (ems_pages (l_dev (isamem_init False 10 ?c))) = 128"
    by (simp add: init_ems_pages [OF f] r k)
  show ?thesis using f by (simp add: init_keeps(1) ts n es ep)
qed

section \<open>The page register\<close>

lemma ems_page_write_fields:
  "page (ems_page_write dev val e) = val AND 0x7f"
  "frame (ems_page_write dev val e) = frame e"
  "m_base (mapping (ems_page_write dev val e)) = m_base (mapping e)"
  "m_size (mapping (ems_page_write dev val e)) = m_size (mapping e)"
  "m_wide (mapping (ems_page_write dev val e)) = m_wide (mapping e)"
  by (simp_all add: ems_page_write_def Let_def mapping_defs)

lemma ems_page_write_unconfigured:
  assumes "flags dev AND FLAG_CONFIG = 0"
  shows "enabled (ems_page_write dev val e) = val AND 0x80"
    and "mapping (ems_page_write dev val e) = mapping e"
    and "addr (ems_page_write dev val e) = addr e"
  using assms by (simp_all add: ems_page_write_def Let_def)

lemma ems_page_write_configured:
  assumes "flags dev AND FLAG_CONFIG \<noteq> 0"
  shows "enabled (ems_page_write dev val e)
           = (if ucast (val AND 0x7f) < ems_pages dev then val AND 0x80 else 0)"
    and "m_enable (mapping (ems_page_write dev val e))
           = (val AND 0x80 \<noteq> 0 \<and> ucast (val AND 0x7f) < ems_pages dev)"
    and "addr (ems_page_write dev val e)
           = (if ucast (val AND 0x7f) < ems_pages dev
              then Some (unat (ems_start dev) + unat (val AND 0x7f) * EMS_PGSIZE) else addr e)"
    and "m_exec (mapping (ems_page_write dev val e))
           = (if val AND 0x80 \<noteq> 0 \<and> ucast (val AND 0x7f) < ems_pages dev
              then Some (unat (ems_start dev) + unat (val AND 0x7f) * EMS_PGSIZE)
              else m_exec (mapping e))"
  using assms by (simp_all add: ems_page_write_def Let_def mapping_defs)

lemma and_7f_idem: "((v :: 8 word) AND 0x7f) AND 0x7f = v AND 0x7f"
  by (simp add: and.assoc)

lemma reg_ok_page_write:
  assumes "reg_ok dev e"
  shows "reg_ok dev (ems_page_write dev val e)"
proof (cases "flags dev AND FLAG_CONFIG = 0")
  case True
  then show ?thesis
    using assms
    by (simp add: reg_ok_def ems_page_write_fields ems_page_write_unconfigured and_7f_idem)
next
  case False
  then show ?thesis
    by (simp add: reg_ok_def ems_page_write_fields ems_page_write_configured and_7f_idem)
qed

lemma reg_ok_cong:
  assumes "reg_ok dev e"
    and "flags dev AND FLAG_CONFIG \<noteq> 0 \<Longrightarrow> flags dev' AND FLAG_CONFIG \<noteq> 0"
    and "ems_pages dev' = ems_pages dev" and "ems_start dev' = ems_start dev"
    and "page e' = page e" and "enabled e' = enabled e" and "addr e' = addr e"
    and "mapping e' = mapping e"
  shows "reg_ok dev' e'"
  using assms by (simp add: reg_ok_def)

lemma list_all_update:
  "list_all P xs \<Longrightarrow> P x \<Longrightarrow> list_all P (xs[i := x])"
proof -
  assume a: "list_all P xs" "P x"
  have "set (xs[i := x]) \<subseteq> insert x (set xs)" by (rule set_update_subset_insert)
  then show ?thesis using a by (auto simp add: list_all_iff)
qed

lemma config_set: "((f :: 8 word) OR FLAG_CONFIG) AND FLAG_CONFIG \<noteq> 0"
proof -
  have "(f OR 1) AND 1 = (1 :: 8 word)"
    by (rule bit_eqI) (auto simp add: bit_simps)
  then show ?thesis by (simp add: flag_defs)
qed

lemma reg_ok_frame: "reg_ok dev (e\<lparr>frame := v\<rparr>) = reg_ok dev e"
  by (simp add: reg_ok_def)

lemma reg_ok_configure: "reg_ok dev e \<Longrightarrow> reg_ok (dev\<lparr>ems := x, flags := flags dev OR FLAG_CONFIG\<rparr>) e"
  by (simp add: reg_ok_def flag_defs)

lemma reg_ok_ems_update: "reg_ok (dev\<lparr>ems := x\<rparr>) e = reg_ok dev e"
  by (simp add: reg_ok_def)

lemma reg_ok_ram_update: "reg_ok (dev\<lparr>ram := x\<rparr>) e = reg_ok dev e"
  by (simp add: reg_ok_def)

lemma list_all_mono: "list_all P xs \<Longrightarrow> (\<And>x. P x \<Longrightarrow> Q x) \<Longrightarrow> list_all Q xs"
  by (auto simp add: list_all_iff)

lemma regs_ok_nth: "regs_ok dev \<Longrightarrow> i < EMS_MAXPAGE \<Longrightarrow> reg_ok dev (ems dev ! i)"
  by (simp add: regs_ok_def list_all_length)

lemma regs_ok_ems_write:
  assumes "regs_ok dev"
  shows "regs_ok (ems_write port val dev)"
proof -
  let ?vp = "ems_vpage port"
  have len: "length (ems dev) = 4" and all: "list_all (reg_ok dev) (ems dev)"
    using assms by (simp_all add: regs_ok_def)
  have e: "reg_ok dev (ems dev ! ?vp)" using assms ems_vpage_lt by (rule regs_ok_nth)
  consider (page) "ems_regsel dev port = 0"
    | (frame) "ems_regsel dev port \<noteq> 0" "ems_regsel dev port = 1"
    | (none) "ems_regsel dev port \<noteq> 0" "ems_regsel dev port \<noteq> 1"
    by blast
  then show ?thesis
  proof cases
    case page
    have "list_all (reg_ok dev) ((ems dev)[?vp := ems_page_write dev val (ems dev ! ?vp)])"
      using all reg_ok_page_write [OF e] by (rule list_all_update)
    then show ?thesis
      using page len by (simp add: ems_write_def Let_def regs_ok_def reg_ok_ems_update [abs_def])
  next
    case frame
    have u: "list_all (reg_ok dev) ((ems dev)[?vp := (ems dev ! ?vp)\<lparr>frame := val\<rparr>])"
      using all e by (simp add: list_all_update reg_ok_frame)
    show ?thesis
    proof (cases "val = 0")
      case True
      then show ?thesis
        using frame len u
        by (simp add: ems_write_def Let_def regs_ok_def reg_ok_ems_update [abs_def])
    next
      case False
      have "list_all (reg_ok (dev\<lparr>ems := (ems dev)[?vp := (ems dev ! ?vp)\<lparr>frame := val\<rparr>],
                                flags := flags dev OR FLAG_CONFIG\<rparr>))
              ((ems dev)[?vp := (ems dev ! ?vp)\<lparr>frame := val\<rparr>])"
        using u by (rule list_all_mono) (rule reg_ok_configure)
      then show ?thesis
        using frame len False by (simp add: ems_write_def Let_def regs_ok_def)
    qed
  next
    case none
    then show ?thesis using assms by (simp add: ems_write_def Let_def)
  qed
qed

lemma regs_ok_io_run: "regs_ok dev \<Longrightarrow> regs_ok (io_run xs dev)"
  unfolding io_run_def
proof (induction xs arbitrary: dev)
  case Nil
  then show ?case by simp
next
  case (Cons x xs)
  have "regs_ok (io_step dev x)" using Cons.prems by (cases x) (simp_all add: regs_ok_ems_write)
  then show ?case by (simp add: Cons.IH)
qed

lemma init_ems:
  "ems (l_dev (isamem_init at loc cfg)) =
     (if flags (l_dev (layout_start at loc cfg)) AND FLAG_EMS \<noteq> 0
      then map (\<lambda>i. emsreg_zero\<lparr>mapping :=
                 viewport_window (carve_ext at (carve_conv (layout_start at loc cfg))) i\<rparr>)
             [0, 1, 2, 3]
      else replicate 4 emsreg_zero)"
proof (cases "flags (l_dev (layout_start at loc cfg)) AND FLAG_EMS = 0")
  case True
  then show ?thesis by (simp add: init_not_ems)
next
  case False
  let ?s = "carve_ext at (carve_conv (layout_start at loc cfg))"
  have f: "flags (l_dev ?s) AND FLAG_EMS \<noteq> 0"
    using False by (simp add: carve_ext_keeps carve_conv_keeps)
  have e: "ems (l_dev ?s) = [emsreg_zero, emsreg_zero, emsreg_zero, emsreg_zero]"
    by (simp add: carve_ext_keeps carve_conv_keeps layout_start_dev replicate_4)
  show ?thesis using setup_ems_ems [OF f e] False by (simp add: isamem_init_def)
qed

lemma init_regs:
  assumes "i < EMS_MAXPAGE"
  shows "enabled (ems (l_dev (isamem_init at loc cfg)) ! i) = 0"
    and "page (ems (l_dev (isamem_init at loc cfg)) ! i) = 0"
    and "\<not> m_enable (mapping (ems (l_dev (isamem_init at loc cfg)) ! i))"
proof -
  have "i = 0 \<or> i = 1 \<or> i = 2 \<or> i = 3" using assms by arith
  then show "enabled (ems (l_dev (isamem_init at loc cfg)) ! i) = 0"
    and "page (ems (l_dev (isamem_init at loc cfg)) ! i) = 0"
    and "\<not> m_enable (mapping (ems (l_dev (isamem_init at loc cfg)) ! i))"
    by (auto simp add: init_ems replicate_4 emsreg_zero_def viewport_window_def mapping_defs)
qed

lemma init_regs_ok: "regs_ok (l_dev (isamem_init at loc cfg))"
proof -
  have "length (ems (l_dev (isamem_init at loc cfg))) = 4" by (simp add: init_ems)
  moreover have "reg_ok (l_dev (isamem_init at loc cfg)) (ems (l_dev (isamem_init at loc cfg)) ! i)"
    if "i < 4" for i
    using init_regs [of i at loc cfg] that by (simp add: reg_ok_def)
  ultimately show ?thesis by (simp add: regs_ok_def list_all_length)
qed

lemma ems_write_keeps:
  "base_addr (ems_write port val dev) = base_addr dev"
  "frame_addr (ems_write port val dev) = frame_addr dev"
  "ems_pages (ems_write port val dev) = ems_pages dev"
  "ems_start (ems_write port val dev) = ems_start dev"
  "ram (ems_write port val dev) = ram dev"
  "low_mapping (ems_write port val dev) = low_mapping dev"
  "high_mapping (ems_write port val dev) = high_mapping dev"
  "length (ems (ems_write port val dev)) = length (ems dev)"
  by (simp_all add: ems_write_def Let_def)

lemma ems_write_flags:
  "flags (ems_write port val dev)
     = (if ems_regsel dev port = 1 \<and> val \<noteq> 0 then flags dev OR FLAG_CONFIG else flags dev)"
  by (simp add: ems_write_def Let_def)

lemma ems_write_page_nth:
  assumes "ems_regsel dev port = 0" and "length (ems dev) = EMS_MAXPAGE"
  shows "ems (ems_write port val dev) ! ems_vpage port
           = ems_page_write dev val (ems dev ! ems_vpage port)"
  using assms ems_vpage_lt [of port] by (simp add: ems_write_def Let_def)

lemma ems_write_other_nth:
  assumes "i \<noteq> ems_vpage port"
  shows "ems (ems_write port val dev) ! i = ems dev ! i"
  using assms by (simp add: ems_write_def Let_def)

text \<open>
  C1, as amended. From the board as constructed, after every sequence of register
  accesses, a viewport's window is enabled only if the board is configured, the
  register's enabled field is set and its page is below \<open>ems_pages\<close>. A page write
  stores the low seven bits as the page. On a configured board a page write naming a
  page \<open>p \<ge> ems_pages\<close> clears the enabled field and disables the window, whatever it
  requested. Before the board is configured a page write stores the requested enable
  bit in the enabled field as it is and does not touch the window, which is disabled.
\<close>

theorem viewport_enable_gate:
  "let d = io_run xs (l_dev (isamem_init at loc cfg)) in
     (\<forall>i < EMS_MAXPAGE. m_enable (mapping (ems d ! i)) \<longrightarrow>
        flags d AND FLAG_CONFIG \<noteq> 0 \<and> enabled (ems d ! i) \<noteq> 0
        \<and> ucast (page (ems d ! i)) < ems_pages d)
     \<and> (\<forall>port val. ems_regsel d port = 0 \<longrightarrow>
          (let e = ems (ems_write port val d) ! ems_vpage port in
             page e = val AND 0x7f
             \<and> (flags d AND FLAG_CONFIG \<noteq> 0 \<and> \<not> ucast (val AND 0x7f) < ems_pages d \<longrightarrow>
                  enabled e = 0 \<and> \<not> m_enable (mapping e))
             \<and> (flags d AND FLAG_CONFIG = 0 \<longrightarrow>
                  enabled e = val AND 0x80
                  \<and> mapping e = mapping (ems d ! ems_vpage port)
                  \<and> \<not> m_enable (mapping e))))"
proof -
  let ?d = "io_run xs (l_dev (isamem_init at loc cfg))"
  have ok: "regs_ok ?d" using init_regs_ok by (rule regs_ok_io_run)
  then have len: "length (ems ?d) = EMS_MAXPAGE" by (simp add: regs_ok_def)
  have a: "flags ?d AND FLAG_CONFIG \<noteq> 0 \<and> enabled (ems ?d ! i) \<noteq> 0
           \<and> ucast (page (ems ?d ! i)) < ems_pages ?d"
    if "i < EMS_MAXPAGE" "m_enable (mapping (ems ?d ! i))" for i
    using regs_ok_nth [OF ok that(1)] that(2) by (simp add: reg_ok_def)
  have b: "page (ems (ems_write port val ?d) ! ems_vpage port) = val AND 0x7f"
    if "ems_regsel ?d port = 0" for port val
    by (simp add: ems_write_page_nth [OF that len] ems_page_write_fields)
  have c: "enabled (ems (ems_write port val ?d) ! ems_vpage port) = 0
           \<and> \<not> m_enable (mapping (ems (ems_write port val ?d) ! ems_vpage port))"
    if "ems_regsel ?d port = 0" "flags ?d AND FLAG_CONFIG \<noteq> 0"
       "\<not> ucast (val AND 0x7f) < ems_pages ?d" for port val
    using that(3) by (simp add: ems_write_page_nth [OF that(1) len] ems_page_write_configured [OF that(2)])
  have d: "enabled (ems (ems_write port val ?d) ! ems_vpage port) = val AND 0x80
           \<and> mapping (ems (ems_write port val ?d) ! ems_vpage port) = mapping (ems ?d ! ems_vpage port)
           \<and> \<not> m_enable (mapping (ems (ems_write port val ?d) ! ems_vpage port))"
    if "ems_regsel ?d port = 0" "flags ?d AND FLAG_CONFIG = 0" for port val
  proof -
    have "\<not> m_enable (mapping (ems ?d ! ems_vpage port))"
      using a [OF ems_vpage_lt] that(2) by blast
    then show ?thesis
      by (simp add: ems_write_page_nth [OF that(1) len] ems_page_write_unconfigured [OF that(2)])
  qed
  show ?thesis unfolding Let_def using a b c d by blast
qed

section \<open>An EV-159 with 512 KB of EMS\<close>

lemma ev159_dev_fields:
  "base_addr ev159_dev = 0x258"
  "frame_addr ev159_dev = 0xE0000"
  "flags ev159_dev = 0x40"
  "ems_pages ev159_dev = 32"
  "ems_start ev159_dev = 0"
  "length (ram ev159_dev) = 524288"
  "low_mapping ev159_dev = mem_mapping_zero"
  "high_mapping ev159_dev = mem_mapping_zero"
proof -
  let ?c = "ev159_cfg 512 0 0"
  have fl: "flags (l_dev (layout_start True 10 ?c)) = 0x40"
    by (simp add: layout_start_def board_setup_def Let_def memdev_zero_def flag_defs ev159_cfg_def)
  then have f: "flags (l_dev (layout_start True 10 ?c)) AND FLAG_EMS \<noteq> 0"
    by (simp add: flag_defs)
  have k: "l_k (layout_start True 10 ?c) = 524288"
    by (simp add: layout_start_board10 ev159_cfg_def)
  have a: "l_addr (layout_start True 10 ?c) = 0"
    by (simp add: layout_start_board10 ev159_cfg_def)
  have nc: "carve_ext True (carve_conv (layout_start True 10 ?c)) = layout_start True 10 ?c"
    by (rule no_carving) (simp add: a)
  have i: "isamem_init True 10 ?c = setup_ems (layout_start True 10 ?c)"
    by (simp add: isamem_init_def nc)
  show "base_addr ev159_dev = 0x258"
    by (simp add: ev159_dev_def init_keeps layout_start_board10 ev159_cfg_def)
  show "frame_addr ev159_dev = 0xE0000"
    by (simp add: ev159_dev_def init_keeps layout_start_board10)
  show "flags ev159_dev = 0x40" by (simp add: ev159_dev_def init_keeps fl)
  show "ems_pages ev159_dev = 32"
    using setup_ems_pool(2) [OF f] by (simp add: ev159_dev_def i k)
  show "ems_start ev159_dev = 0"
    using setup_ems_pool(1) [OF f] by (simp add: ev159_dev_def i layout_start_locals(1))
  show "length (ram ev159_dev) = 524288" by (simp add: ev159_dev_def init_ram_length k)
  show "low_mapping ev159_dev = mem_mapping_zero"
    by (simp add: ev159_dev_def i setup_ems_keeps layout_start_dev)
  show "high_mapping ev159_dev = mem_mapping_zero"
    by (simp add: ev159_dev_def i setup_ems_keeps layout_start_dev)
qed

lemma ev159_dev_regsel:
  "ems_regsel ev159_dev 0x258 = 0" "ems_regsel ev159_dev 0x259 = 1"
  "ems_regsel ev159_dev 0x8258 = 0"
  "ems_vpage 0x258 = 0" "ems_vpage 0x259 = 0" "ems_vpage 0x8258 = 2"
  by (simp_all add: ems_regsel_def ems_vpage_def ev159_dev_fields)

lemma ev159_dev_regs:
  assumes "i < EMS_MAXPAGE"
  shows "enabled (ems ev159_dev ! i) = 0" and "page (ems ev159_dev ! i) = 0"
    and "\<not> m_enable (mapping (ems ev159_dev ! i))"
  using assms by (simp_all add: ev159_dev_def init_regs)

lemma ev159_dev_len: "length (ems ev159_dev) = EMS_MAXPAGE"
  using init_regs_ok [of True 10 "ev159_cfg 512 0 0"] by (simp add: regs_ok_def ev159_dev_def)

text \<open>
  C1 as the specification states it fails: on the board as constructed, not yet
  configured, a page write of \<open>0xA8\<close> (enable, page 40) to viewport 0 leaves the board
  unconfigured and the viewport's enabled field set, with a page that the pool of 32
  pages does not have; the register reads back \<open>0xA8\<close>.
\<close>

theorem viewport_enable_gate_counterexample:
  "flags (ems_write 0x258 0xA8 ev159_dev) AND FLAG_CONFIG = 0
   \<and> ems_pages (ems_write 0x258 0xA8 ev159_dev) = 32
   \<and> page (ems (ems_write 0x258 0xA8 ev159_dev) ! 0) = 40
   \<and> enabled (ems (ems_write 0x258 0xA8 ev159_dev) ! 0) = 0x80
   \<and> ems_read 0x258 (ems_write 0x258 0xA8 ev159_dev) = 0xA8"
proof -
  have u: "flags ev159_dev AND FLAG_CONFIG = 0" by (simp add: ev159_dev_fields flag_defs)
  have n: "ems (ems_write 0x258 0xA8 ev159_dev) ! 0
             = ems_page_write ev159_dev 0xA8 (ems ev159_dev ! 0)"
    using ems_write_page_nth [OF ev159_dev_regsel(1) ev159_dev_len, of "0xA8"]
    by (simp add: ev159_dev_regsel)
  have f: "flags (ems_write 0x258 0xA8 ev159_dev) AND FLAG_CONFIG = 0"
    using u by (simp add: ems_write_flags ev159_dev_regsel)
  have p: "page (ems (ems_write 0x258 0xA8 ev159_dev) ! 0) = 40"
    by (simp add: n ems_page_write_fields)
  have e: "enabled (ems (ems_write 0x258 0xA8 ev159_dev) ! 0) = 0x80"
    by (simp add: n ems_page_write_unconfigured [OF u])
  have r: "ems_read 0x258 (ems_write 0x258 0xA8 ev159_dev) = 0xA8"
    by (simp add: ems_read_def Let_def regsel_ems_write ev159_dev_regsel p e)
  show ?thesis using f p e r by (simp add: ems_write_keeps ev159_dev_fields)
qed

theorem viewport_enable_gate_witness:
  "ems_regsel (io_run [IoWrite 0x259 1] ev159_dev) 0x258 = 0
   \<and> flags (io_run [IoWrite 0x259 1] ev159_dev) AND FLAG_CONFIG \<noteq> 0
   \<and> \<not> ucast (0xA8 AND 0x7f :: 8 word) < ems_pages (io_run [IoWrite 0x259 1] ev159_dev)
   \<and> page (ems (ems_write 0x258 0xA8 (io_run [IoWrite 0x259 1] ev159_dev)) ! ems_vpage 0x258) = 40
   \<and> enabled (ems (ems_write 0x258 0xA8 (io_run [IoWrite 0x259 1] ev159_dev)) ! ems_vpage 0x258) = 0
   \<and> \<not> m_enable (mapping (ems (ems_write 0x258 0xA8 (io_run [IoWrite 0x259 1] ev159_dev))
                             ! ems_vpage 0x258))"
proof -
  let ?d = "io_run [IoWrite 0x259 1] ev159_dev"
  have h1: "ems_regsel ?d 0x258 = 0" by (simp add: regsel_io_run ev159_dev_regsel)
  have h2: "flags ?d AND FLAG_CONFIG \<noteq> 0"
    by (simp add: io_run_def ems_write_flags ev159_dev_regsel ev159_dev_fields flag_defs)
  have h3: "\<not> ucast (0xA8 AND 0x7f :: 8 word) < ems_pages ?d"
    by (simp add: io_run_def ems_write_keeps ev159_dev_fields)
  note g = viewport_enable_gate [of "[IoWrite 0x259 1]" True 10 "ev159_cfg 512 0 0",
      unfolded Let_def, folded ev159_dev_def]
  from g have "ems_regsel ?d 0x258 = 0 \<longrightarrow>
      page (ems (ems_write 0x258 0xA8 ?d) ! ems_vpage 0x258) = 0xA8 AND 0x7f
      \<and> (flags ?d AND FLAG_CONFIG \<noteq> 0 \<and> \<not> ucast (0xA8 AND 0x7f :: 8 word) < ems_pages ?d \<longrightarrow>
            enabled (ems (ems_write 0x258 0xA8 ?d) ! ems_vpage 0x258) = 0
            \<and> \<not> m_enable (mapping (ems (ems_write 0x258 0xA8 ?d) ! ems_vpage 0x258)))"
    by blast
  then show ?thesis using h1 h2 h3 by simp
qed

section \<open>Reading the page register\<close>

lemma ems_read_page:
  assumes "ems_regsel dev port = 0"
  shows "ems_read port dev
           = page (ems dev ! ems_vpage port)
             OR (if enabled (ems dev ! ems_vpage port) \<noteq> 0 then 0x80 else 0)"
  using assms by (simp add: ems_read_def Let_def)

section \<open>The byte of the page register\<close>

lemma bit_80: "bit (0x80 :: 8 word) n \<longleftrightarrow> n = 7"
proof -
  have "(0x80 :: 8 word) = 2 ^ 7" by simp
  then show ?thesis by (simp only: bit_exp_iff) auto
qed

lemma bit_7f: "bit (0x7f :: 8 word) n \<longleftrightarrow> n < 7"
proof -
  have "(0x7f :: 8 word) = mask 7" by (simp add: mask_eq_exp_minus_1)
  then show ?thesis by (simp only: bit_mask_iff) auto
qed

lemma and_80_cases: "(v :: 8 word) AND 0x80 = 0 \<or> v AND 0x80 = 0x80"
proof (cases "bit v 7")
  case True
  have "v AND 0x80 = 0x80"
  proof (rule bit_eqI)
    fix n
    show "bit (v AND 0x80) n = bit (0x80 :: 8 word) n"
      unfolding bit_and_iff bit_80 using True by auto
  qed
  then show ?thesis by simp
next
  case False
  have "v AND 0x80 = 0"
  proof (rule bit_eqI)
    fix n
    show "bit (v AND 0x80) n = bit (0 :: 8 word) n"
      unfolding bit_and_iff bit_80 using False by auto
  qed
  then show ?thesis by simp
qed

lemma split_7f_80: "((v :: 8 word) AND 0x7f) OR (v AND 0x80) = v"
proof (rule bit_eqI)
  fix n
  assume "possible_bit TYPE(8 word) n"
  then have "n < 8" by (simp add: possible_bit_word)
  then have "n < 7 \<or> n = 7" by arith
  then show "bit ((v AND 0x7f) OR (v AND 0x80)) n = bit v n"
    unfolding bit_and_iff bit_or_iff bit_80 bit_7f by auto
qed

lemma page_enable_byte:
  "((v :: 8 word) AND 0x7f) OR (if v AND 0x80 \<noteq> 0 then 0x80 else 0) = v"
  using and_80_cases [of v] split_7f_80 [of v] by auto

lemma or_80_bit7: "((p :: 8 word) OR 0x80) AND 0x80 \<noteq> 0"
proof -
  have "bit ((p OR 0x80) AND 0x80) 7" unfolding bit_and_iff bit_or_iff bit_80 by simp
  then show ?thesis by auto
qed


lemma ems_write_frame_nth:
  assumes "ems_regsel dev port = 1" and "length (ems dev) = EMS_MAXPAGE"
  shows "ems (ems_write port val dev) ! ems_vpage port = (ems dev ! ems_vpage port)\<lparr>frame := val\<rparr>"
  using assms ems_vpage_lt [of port] by (simp add: ems_write_def Let_def)

text \<open>
  C2, as amended. From the board as constructed, after every sequence of register
  accesses, a read of the page register at a port changes nothing and reads the
  viewport \<open>port / 16384\<close>: it returns the page's low seven bits, with bit 7 set exactly
  when the register's enabled field is set, as it is whenever the viewport's window is
  enabled. A page write changes no other viewport. On a configured board, a read after
  a page write of \<open>val\<close> returns \<open>val & 0x7f\<close>, with bit 7 set exactly when the window
  is then enabled, that is, when \<open>val\<close> asked for it and the page is in the pool. Before
  the board is configured, a read after a page write returns \<open>val\<close> as written, enable
  bit included, while the window stays disabled.
\<close>

theorem page_select_read:
  "let d = io_run xs (l_dev (isamem_init at loc cfg)) in
     \<forall>port. ems_regsel d port = 0 \<longrightarrow>
       (let i = unat port div 16384 in
          ems_read port d
            = (page (ems d ! i) AND 0x7f) OR (if enabled (ems d ! i) \<noteq> 0 then 0x80 else 0)
          \<and> (m_enable (mapping (ems d ! i)) \<longrightarrow> ems_read port d AND 0x80 \<noteq> 0)
          \<and> io_step d (IoRead port) = d
          \<and> (\<forall>val.
                (\<forall>j < EMS_MAXPAGE. j \<noteq> i \<longrightarrow> ems (ems_write port val d) ! j = ems d ! j)
                \<and> (if flags d AND FLAG_CONFIG \<noteq> 0
                   then ems_read port (ems_write port val d)
                          = (val AND 0x7f)
                            OR (if m_enable (mapping (ems (ems_write port val d) ! i))
                                then 0x80 else 0)
                        \<and> (m_enable (mapping (ems (ems_write port val d) ! i))
                             \<longleftrightarrow> val AND 0x80 \<noteq> 0 \<and> ucast (val AND 0x7f) < ems_pages d)
                   else ems_read port (ems_write port val d) = val
                        \<and> \<not> m_enable (mapping (ems (ems_write port val d) ! i)))))"
proof -
  let ?d = "io_run xs (l_dev (isamem_init at loc cfg))"
  have ok: "regs_ok ?d" using init_regs_ok by (rule regs_ok_io_run)
  then have len: "length (ems ?d) = EMS_MAXPAGE" by (simp add: regs_ok_def)
  have vp: "ems_vpage port = unat port div 16384" for port by (simp add: ems_vpage_def)
  have r: "reg_ok ?d (ems ?d ! ems_vpage port)" for port
    using ok ems_vpage_lt by (rule regs_ok_nth)
  have a: "ems_read port ?d
             = (page (ems ?d ! ems_vpage port) AND 0x7f)
               OR (if enabled (ems ?d ! ems_vpage port) \<noteq> 0 then 0x80 else 0)"
    if "ems_regsel ?d port = 0" for port
  proof -
    have "page (ems ?d ! ems_vpage port) AND 0x7f = page (ems ?d ! ems_vpage port)"
      using r [of port] by (simp add: reg_ok_def)
    then show ?thesis by (simp add: ems_read_page [OF that])
  qed
  have b: "ems_read port ?d AND 0x80 \<noteq> 0"
    if "ems_regsel ?d port = 0" "m_enable (mapping (ems ?d ! ems_vpage port))" for port
  proof -
    have "enabled (ems ?d ! ems_vpage port) \<noteq> 0" using r [of port] that(2) by (simp add: reg_ok_def)
    then show ?thesis by (simp add: ems_read_page [OF that(1)] or_80_bit7)
  qed
  have c: "ems (ems_write port val ?d) ! j = ems ?d ! j" if "j \<noteq> ems_vpage port" for port val j
    using that by (rule ems_write_other_nth)
  have rd: "ems_read port (ems_write port val ?d)
              = (val AND 0x7f)
                OR (if enabled (ems_page_write ?d val (ems ?d ! ems_vpage port)) \<noteq> 0
                    then 0x80 else 0)"
    if "ems_regsel ?d port = 0" for port val
  proof -
    have "ems_regsel (ems_write port val ?d) port = 0" using that by (simp add: regsel_ems_write)
    from ems_read_page [OF this] show ?thesis
      by (simp add: ems_write_page_nth [OF that len] ems_page_write_fields)
  qed
  have e: "ems_read port (ems_write port val ?d)
             = (val AND 0x7f)
               OR (if m_enable (mapping (ems (ems_write port val ?d) ! ems_vpage port))
                   then 0x80 else 0)
           \<and> (m_enable (mapping (ems (ems_write port val ?d) ! ems_vpage port))
                \<longleftrightarrow> val AND 0x80 \<noteq> 0 \<and> ucast (val AND 0x7f) < ems_pages ?d)"
    if "ems_regsel ?d port = 0" "flags ?d AND FLAG_CONFIG \<noteq> 0" for port val
    by (simp add: rd [OF that(1)] ems_write_page_nth [OF that(1) len]
        ems_page_write_configured [OF that(2)])
  have f: "ems_read port (ems_write port val ?d) = val
           \<and> \<not> m_enable (mapping (ems (ems_write port val ?d) ! ems_vpage port))"
    if "ems_regsel ?d port = 0" "flags ?d AND FLAG_CONFIG = 0" for port val
  proof -
    have "\<not> m_enable (mapping (ems ?d ! ems_vpage port))"
      using r [of port] that(2) by (auto simp add: reg_ok_def)
    then show ?thesis
      by (simp add: rd [OF that(1)] ems_write_page_nth [OF that(1) len]
          ems_page_write_unconfigured [OF that(2)] page_enable_byte)
  qed
  show ?thesis
    unfolding Let_def vp [symmetric]
    using a b c e f by simp
qed

theorem page_select_read_witness:
  "ems_regsel (io_run [IoWrite 0x259 1] ev159_dev) 0x8258 = 0
   \<and> flags (io_run [IoWrite 0x259 1] ev159_dev) AND FLAG_CONFIG \<noteq> 0
   \<and> ems_read 0x8258 (ems_write 0x8258 0x85 (io_run [IoWrite 0x259 1] ev159_dev)) = 0x85
   \<and> m_enable (mapping (ems (ems_write 0x8258 0x85 (io_run [IoWrite 0x259 1] ev159_dev)) ! 2))
   \<and> ems_read 0x8258 (ems_write 0x8258 0xA8 (io_run [IoWrite 0x259 1] ev159_dev)) = 0x28
   \<and> \<not> m_enable (mapping (ems (ems_write 0x8258 0xA8 (io_run [IoWrite 0x259 1] ev159_dev)) ! 2))"
proof -
  let ?d = "io_run [IoWrite 0x259 1] ev159_dev"
  have h1: "ems_regsel ?d 0x8258 = 0" by (simp add: regsel_io_run ev159_dev_regsel)
  have h2: "flags ?d AND FLAG_CONFIG \<noteq> 0"
    by (simp add: io_run_def ems_write_flags ev159_dev_regsel ev159_dev_fields flag_defs)
  have h3: "ems_pages ?d = 32" by (simp add: io_run_def ems_write_keeps ev159_dev_fields)
  have i: "unat (0x8258 :: 16 word) div 16384 = 2" by simp
  note g = page_select_read [of "[IoWrite 0x259 1]" True 10 "ev159_cfg 512 0 0",
      unfolded Let_def, folded ev159_dev_def]
  from g h1 h2 have
    "ems_read 0x8258 (ems_write 0x8258 0x85 ?d)
       = (0x85 AND 0x7f)
         OR (if m_enable (mapping (ems (ems_write 0x8258 0x85 ?d) ! (unat (0x8258 :: 16 word) div 16384)))
             then 0x80 else 0)"
    and "m_enable (mapping (ems (ems_write 0x8258 0x85 ?d) ! (unat (0x8258 :: 16 word) div 16384)))
           \<longleftrightarrow> (0x85 :: 8 word) AND 0x80 \<noteq> 0 \<and> ucast (0x85 AND 0x7f :: 8 word) < ems_pages ?d"
    and "ems_read 0x8258 (ems_write 0x8258 0xA8 ?d)
       = (0xA8 AND 0x7f)
         OR (if m_enable (mapping (ems (ems_write 0x8258 0xA8 ?d) ! (unat (0x8258 :: 16 word) div 16384)))
             then 0x80 else 0)"
    and "m_enable (mapping (ems (ems_write 0x8258 0xA8 ?d) ! (unat (0x8258 :: 16 word) div 16384)))
           \<longleftrightarrow> (0xA8 :: 8 word) AND 0x80 \<noteq> 0 \<and> ucast (0xA8 AND 0x7f :: 8 word) < ems_pages ?d"
    by meson+
  then show ?thesis using h1 h2 h3 unfolding i by simp
qed

text \<open>
  C2 as the specification states it fails. On the board as constructed, not yet
  configured, a page write of \<open>0x85\<close> to viewport 0 leaves the window disabled, yet the
  register reads back \<open>0x85\<close>, enable bit and all. After a page write of \<open>0xA8\<close> (page 40
  of 32) followed by the frame write that configures the board, the window is still
  disabled and the register still reads \<open>0xA8\<close>.
\<close>

theorem page_select_read_counterexample:
  "flags (ems_write 0x258 0x85 ev159_dev) AND FLAG_CONFIG = 0
   \<and> \<not> m_enable (mapping (ems (ems_write 0x258 0x85 ev159_dev) ! 0))
   \<and> ems_read 0x258 (ems_write 0x258 0x85 ev159_dev) = 0x85
   \<and> flags (ems_write 0x259 1 (ems_write 0x258 0xA8 ev159_dev)) AND FLAG_CONFIG \<noteq> 0
   \<and> ems_pages (ems_write 0x259 1 (ems_write 0x258 0xA8 ev159_dev)) = 32
   \<and> \<not> m_enable (mapping (ems (ems_write 0x259 1 (ems_write 0x258 0xA8 ev159_dev)) ! 0))
   \<and> ems_read 0x258 (ems_write 0x259 1 (ems_write 0x258 0xA8 ev159_dev)) = 0xA8"
proof -
  have u: "flags ev159_dev AND FLAG_CONFIG = 0" by (simp add: ev159_dev_fields flag_defs)
  have n: "ems (ems_write 0x258 v ev159_dev) ! 0 = ems_page_write ev159_dev v (ems ev159_dev ! 0)"
    for v
    using ems_write_page_nth [OF ev159_dev_regsel(1) ev159_dev_len, of v]
    by (simp add: ev159_dev_regsel)
  have f1: "flags (ems_write 0x258 v ev159_dev) AND FLAG_CONFIG = 0" for v
    using u by (simp add: ems_write_flags ev159_dev_regsel)
  have w1: "\<not> m_enable (mapping (ems (ems_write 0x258 v ev159_dev) ! 0))" for v
    by (simp add: n ems_page_write_unconfigured [OF u] ev159_dev_regs)
  have r1: "ems_read 0x258 (ems_write 0x258 0x85 ev159_dev) = 0x85"
    by (simp add: ems_read_def Let_def regsel_ems_write ev159_dev_regsel n
        ems_page_write_fields ems_page_write_unconfigured [OF u])
  let ?d1 = "ems_write 0x258 0xA8 ev159_dev"
  let ?d2 = "ems_write 0x259 1 ?d1"
  have s1: "ems_regsel ?d1 0x259 = 1" by (simp add: regsel_ems_write ev159_dev_regsel)
  have l1: "length (ems ?d1) = EMS_MAXPAGE" by (simp add: ems_write_keeps ev159_dev_len)
  have m: "ems ?d2 ! 0 = (ems ?d1 ! 0)\<lparr>frame := 1\<rparr>"
    using ems_write_frame_nth [OF s1 l1, of 1] by (simp add: ev159_dev_regsel)
  have f2: "flags ?d2 AND FLAG_CONFIG \<noteq> 0"
    by (simp add: ems_write_flags s1 flag_defs)
  have p2: "ems_pages ?d2 = 32" by (simp add: ems_write_keeps ev159_dev_fields)
  have w2: "\<not> m_enable (mapping (ems ?d2 ! 0))" using w1 [of "0xA8"] by (simp add: m)
  have r2: "ems_read 0x258 ?d2 = 0xA8"
    by (simp add: ems_read_def Let_def regsel_ems_write ev159_dev_regsel m n
        ems_page_write_fields ems_page_write_unconfigured [OF u])
  show ?thesis using f1 [of "0x85"] w1 [of "0x85"] r1 f2 p2 w2 r2 by simp
qed

section \<open>The regions and the buffer\<close>

lemma carve_conv_tot_le:
  assumes "l_ptr s = 0"
  shows "unat (l_tot (carve_conv s)) \<le> unat (reserved_bytes s) \<or> carve_conv s = s"
proof (cases "l_addr s > 0 \<and> l_tot s > 0")
  case True
  have "l_ptr (carve_conv s) + unat (l_tot (carve_conv s)) = unat (l_tot s)"
    using carve_conv_conserve [of s] assms by simp
  then show ?thesis using True by (simp add: reserved_bytes_def)
next
  case False
  then show ?thesis by (auto simp add: carve_conv_def)
qed

lemma low_size_le:
  assumes "low_mapping (l_dev s) = mem_mapping_zero"
  shows "unat (m_size (low_mapping (l_dev (carve_conv s)))) \<le> unat (reserved_bytes s)"
proof (cases "l_addr s > 0 \<and> l_tot s > 0")
  case True
  let ?s = "s\<lparr>l_k := l_k s - l_tot s\<rparr>"
  have "unat (m_size (low_mapping (l_dev (carve_low ?s))))
          \<le> max (unat (m_size (low_mapping (l_dev ?s)))) (unat (l_tot ?s))"
    by (rule carve_low_size)
  then show ?thesis
    using True assms by (simp add: carve_conv_def carve_uma_keeps reserved_bytes_def mapping_defs)
next
  case False
  then show ?thesis using assms by (auto simp add: carve_conv_def mapping_defs)
qed

lemma carve_low_tot_le: "unat (l_tot (carve_low s)) \<le> unat (l_tot s)"
  using carve_low_conserve [of s]
  by (auto simp add: carve_low_def Let_def unat_sub word_le_nat_alt word_less_nat_alt)

lemma remap_size_le:
  assumes "l_remap s = None" and "l_remap (carve_conv s) = Some mp"
  shows "unat (m_size mp) \<le> unat (reserved_bytes s)"
proof (cases "l_addr s > 0 \<and> l_tot s > 0")
  case True
  let ?s = "s\<lparr>l_k := l_k s - l_tot s\<rparr>"
  have c: "carve_conv s = carve_uma (carve_low ?s)" using True by (simp add: carve_conv_def)
  have "l_remap (carve_low ?s) = None" using assms(1) by (simp add: carve_low_keeps)
  then have "unat (m_size mp) \<le> unat (l_tot (carve_low ?s))"
    using carve_uma_size [of "carve_low ?s" mp] assms(2) c by simp
  moreover have "unat (l_tot (carve_low ?s)) \<le> unat (l_tot s)"
    using carve_low_tot_le [of ?s] by simp
  ultimately show ?thesis using True by (simp add: reserved_bytes_def)
next
  case False
  then have "carve_conv s = s" by (auto simp add: carve_conv_def)
  then show ?thesis using assms by simp
qed

lemma high_size_le:
  assumes "high_mapping (l_dev s) = mem_mapping_zero" and "l_ptr s = 0"
  shows "unat (m_size (high_mapping (l_dev (carve_ext at (carve_conv s)))))
           \<le> unat (reserved_bytes s)"
proof (cases "l_addr s > 0 \<and> l_tot s > 0")
  case True
  have h: "high_mapping (l_dev (carve_conv s)) = mem_mapping_zero"
    using assms(1) by (simp add: carve_conv_keeps)
  have "unat (m_size (high_mapping (l_dev (carve_ext at (carve_conv s)))))
          \<le> max (unat (m_size (high_mapping (l_dev (carve_conv s))))) (unat (l_tot (carve_conv s)))"
    by (rule carve_ext_size)
  then have a: "unat (m_size (high_mapping (l_dev (carve_ext at (carve_conv s)))))
                  \<le> unat (l_tot (carve_conv s))"
    by (simp add: h mapping_defs)
  have "l_ptr (carve_conv s) + unat (l_tot (carve_conv s)) = unat (l_tot s)"
    using carve_conv_conserve [of s] assms(2) by simp
  then show ?thesis using a True by (simp add: reserved_bytes_def)
next
  case False
  then have "carve_ext at (carve_conv s) = s" by (auto simp add: carve_conv_def carve_ext_def)
  then show ?thesis using assms(1) by (simp add: mapping_defs)
qed

lemma init_plain_sizes:
  assumes "reserved_bytes (layout_start at loc cfg) \<le> l_k (layout_start at loc cfg)"
  shows "unat (m_size (low_mapping (l_dev (isamem_init at loc cfg))))
           \<le> length (ram (l_dev (isamem_init at loc cfg)))"
    and "unat (m_size (high_mapping (l_dev (isamem_init at loc cfg))))
           \<le> length (ram (l_dev (isamem_init at loc cfg)))"
    and "l_remap (isamem_init at loc cfg) = Some mp \<Longrightarrow>
           unat (m_size mp) \<le> length (ram (l_dev (isamem_init at loc cfg)))"
proof -
  let ?s0 = "layout_start at loc cfg"
  have r: "unat (reserved_bytes ?s0) \<le> length (ram (l_dev (isamem_init at loc cfg)))"
    using assms by (simp add: init_ram_length word_le_nat_alt)
  have "unat (m_size (low_mapping (l_dev (carve_conv ?s0)))) \<le> unat (reserved_bytes ?s0)"
    by (rule low_size_le) (rule layout_start_dev)
  then show "unat (m_size (low_mapping (l_dev (isamem_init at loc cfg))))
               \<le> length (ram (l_dev (isamem_init at loc cfg)))"
    using r by (simp add: isamem_init_def setup_ems_keeps carve_ext_keeps)
  have "unat (m_size (high_mapping (l_dev (carve_ext at (carve_conv ?s0)))))
          \<le> unat (reserved_bytes ?s0)"
    by (rule high_size_le) (rule layout_start_dev, rule layout_start_locals)
  then show "unat (m_size (high_mapping (l_dev (isamem_init at loc cfg))))
               \<le> length (ram (l_dev (isamem_init at loc cfg)))"
    using r by (simp add: isamem_init_def setup_ems_keeps)
  show "unat (m_size mp) \<le> length (ram (l_dev (isamem_init at loc cfg)))"
    if "l_remap (isamem_init at loc cfg) = Some mp"
  proof -
    have "l_remap (carve_conv ?s0) = Some mp"
      using that by (simp add: isamem_init_def setup_ems_keeps carve_ext_keeps)
    then have "unat (m_size mp) \<le> unat (reserved_bytes ?s0)"
      using remap_size_le [of ?s0 mp] by (simp add: layout_start_locals)
    then show ?thesis using r by simp
  qed
qed

lemma ems_board_frame:
  assumes "flags (l_dev (layout_start at loc cfg)) AND FLAG_EMS \<noteq> 0"
  shows "frame_addr (l_dev (layout_start at loc cfg)) = 0xD0000
         \<or> frame_addr (l_dev (layout_start at loc cfg)) = 0xE0000"
  using assms
  by (simp add: layout_start_def board_setup_def Let_def memdev_zero_def flag_defs
      split: if_splits)

section \<open>Writing and reading back\<close>

lemma word_of_bytes: "ucast (ucast (v :: 16 word) :: 8 word) OR push_bit 8 (ucast (ucast (drop_bit 8 v) :: 8 word)) = v"
  by (rule bit_eqI) (auto simp add: bit_simps)

lemma ram_byte_round_trip:
  assumes "unat (a - m_base mp) < length (ram dev)"
  shows "\<exists>dev'. ram_writeb a v mp dev = Some dev' \<and> ram_readb a mp dev' = Some v"
  using assms by (simp add: ram_writeb_def ram_readb_def Let_def)

lemma ram_word_round_trip:
  assumes "unat (a - m_base mp) + 1 < length (ram dev)"
  shows "\<exists>dev'. ram_writew a v mp dev = Some dev' \<and> ram_readw a mp dev' = Some v"
  using assms by (simp add: ram_writew_def ram_readw_def Let_def word_of_bytes)

lemma ems_byte_round_trip:
  assumes "addr (ems dev ! ems_addr_vpage a) = Some p"
    and "p + unat (a - m_base mp) < length (ram dev)"
  shows "\<exists>dev'. ems_writeb a v mp dev = Some dev' \<and> ems_readb a mp dev' = Some v"
  using assms by (simp add: ems_writeb_def ems_readb_def Let_def)

lemma ems_word_round_trip:
  assumes "addr (ems dev ! ems_addr_vpage a) = Some p"
    and "p + unat (a - m_base mp) + 1 < length (ram dev)"
  shows "\<exists>dev'. ems_writew a v mp dev = Some dev' \<and> ems_readw a mp dev' = Some v"
  using assms by (simp add: ems_writew_def ems_readw_def Let_def word_of_bytes)

lemma unat_and_ffff: "unat ((a :: 32 word) AND 0xffff) = unat a mod 65536"
proof -
  have "a AND 0xffff = take_bit 16 a" by (simp add: take_bit_eq_mask mask_eq_exp_minus_1)
  moreover have "unat (take_bit 16 a) = take_bit 16 (unat a)" by (rule unsigned_take_bit_eq)
  moreover have "take_bit 16 (unat a) = unat a mod 2 ^ 16" by (rule take_bit_eq_mod)
  ultimately show ?thesis by simp
qed

lemma window_vpage:
  assumes f: "fr = 0xD0000 \<or> fr = (0xE0000 :: 32 word)" and i: "i < EMS_MAXPAGE"
    and b: "fr + EMS_PGSIZE * of_nat i \<le> a" and o: "a - (fr + EMS_PGSIZE * of_nat i) < EMS_PGSIZE"
  shows "ems_addr_vpage a = i"
proof -
  let ?b = "fr + EMS_PGSIZE * of_nat i"
  have ub: "unat ?b = unat fr + 16384 * i"
    using f i by (auto simp add: unat_word_ariths unat_of_nat)
  have "unat fr = 13 * 65536 \<or> unat fr = 14 * 65536" using f by auto
  then obtain q where q: "unat fr = q * 65536" by blast
  define off where "off = unat (a - ?b)"
  have uo: "off < 16384" using o by (simp add: off_def word_less_nat_alt)
  have "unat a = unat ?b + unat (a - ?b)" using b by (simp add: unat_sub word_le_nat_alt)
  then have ua: "unat a = 16384 * i + off + q * 65536"
    by (simp only: ub q off_def)
  have "(16384 * i + off + q * 65536) mod 65536 = (16384 * i + off) mod 65536"
    by (rule mod_mult_self1)
  also have "\<dots> = 16384 * i + off" using i uo by simp
  finally have "unat a mod 65536 = 16384 * i + off" by (simp only: ua)
  then show ?thesis using uo by (simp add: ems_addr_vpage_def unat_and_ffff)
qed

section \<open>What the bus operations keep\<close>

lemma same_layout_refl: "same_layout d0 d0"
  by (simp add: same_layout_def)

lemma same_layout_ram:
  "same_layout d0 dev \<Longrightarrow> length r = length (ram dev) \<Longrightarrow> same_layout d0 (dev\<lparr>ram := r\<rparr>)"
  by (simp add: same_layout_def)

lemma regs_ok_ram: "regs_ok (dev\<lparr>ram := r\<rparr>) = regs_ok dev"
  by (simp add: regs_ok_def reg_ok_def [abs_def])

lemma same_layout_ems_write:
  assumes "same_layout d0 dev"
  shows "same_layout d0 (ems_write port val dev)"
proof -
  let ?f = "\<lambda>e. (m_base (mapping e), m_size (mapping e))"
  let ?vp = "ems_vpage port"
  have a: "map ?f ((ems dev)[?vp := ems_page_write dev val (ems dev ! ?vp)]) = map ?f (ems dev)"
    using map_update_nth [of ?f "ems dev" ?vp]
    by (simp add: map_update ems_page_write_fields)
  have b: "map ?f ((ems dev)[?vp := (ems dev ! ?vp)\<lparr>frame := v\<rparr>]) = map ?f (ems dev)" for v
    using map_update_nth [of ?f "ems dev" ?vp] by (simp add: map_update)
  show ?thesis
    using assms a b by (simp add: same_layout_def ems_write_def Let_def)
qed

lemma init_layout_ok:
  assumes "reserved_bytes (layout_start at loc cfg) \<le> l_k (layout_start at loc cfg)"
  shows "layout_ok (l_dev (isamem_init at loc cfg))"
proof -
  let ?d0 = "l_dev (isamem_init at loc cfg)"
  let ?s0 = "layout_start at loc cfg"
  have w: "(frame_addr ?d0 = 0xD0000 \<or> frame_addr ?d0 = 0xE0000)
           \<and> map (\<lambda>e. (m_base (mapping e), m_size (mapping e))) (ems ?d0)
               = map (\<lambda>i. (frame_addr ?d0 + EMS_PGSIZE * of_nat i, EMS_PGSIZE)) [0, 1, 2, 3]"
    if "ems_pages ?d0 \<noteq> 0"
  proof -
    have f: "flags (l_dev ?s0) AND FLAG_EMS \<noteq> 0"
      using that init_not_ems(2) [of at loc cfg] by blast
    have "frame_addr (l_dev (carve_ext at (carve_conv ?s0))) = frame_addr ?d0"
      by (simp add: init_keeps carve_ext_keeps carve_conv_keeps)
    then show ?thesis
      using ems_board_frame [OF f] f
      by (simp add: init_ems init_keeps viewport_window_def)
  qed
  show ?thesis
    unfolding layout_ok_def
    using init_plain_sizes(1,2) [OF assms] pool_in_buffer [OF assms] w by blast
qed

section \<open>Routed accesses stay in the buffer\<close>

lemma in_window_w_off:
  assumes "in_window_w mp a" and "word_inside mp a"
  shows "m_enable mp" and "m_base mp \<le> a" and "a - m_base mp < m_size mp"
    and "unat (a - m_base mp) + 1 < unat (m_size mp)"
  using assms by (simp_all add: in_window_w_def in_window_def word_inside_def)

lemma plain_in_bounds:
  assumes "unat (m_size mp) \<le> length (ram dev)"
  shows "in_window mp a \<Longrightarrow> unat (a - m_base mp) < length (ram dev)"
    and "word_inside mp a \<Longrightarrow> unat (a - m_base mp) + 1 < length (ram dev)"
  using assms by (simp_all add: in_window_def word_inside_def word_less_nat_alt)

lemma window_in_bounds:
  assumes lay: "layout_ok d0" and regs: "regs_ok dev" and same: "same_layout d0 dev"
    and i: "i < EMS_MAXPAGE"
    and en: "m_enable (mapping (ems dev ! i))"
    and b: "m_base (mapping (ems dev ! i)) \<le> a"
    and o: "a - m_base (mapping (ems dev ! i)) < m_size (mapping (ems dev ! i))"
  shows "\<exists>p. addr (ems dev ! ems_addr_vpage a) = Some p
             \<and> p + EMS_PGSIZE \<le> length (ram dev)
             \<and> m_size (mapping (ems dev ! i)) = EMS_PGSIZE"
proof -
  let ?f = "\<lambda>e. (m_base (mapping e), m_size (mapping e))"
  let ?e = "ems dev ! i"
  have r: "reg_ok dev ?e" using regs i by (rule regs_ok_nth)
  then have pg: "ucast (page ?e) < ems_pages dev"
    and ad: "addr ?e = Some (unat (ems_start dev) + unat (page ?e) * EMS_PGSIZE)"
    using en by (simp_all add: reg_ok_def)
  have ne: "ems_pages d0 \<noteq> 0" using pg same by (auto simp add: same_layout_def)
  then have fr: "frame_addr d0 = 0xD0000 \<or> frame_addr d0 = 0xE0000"
    and ws: "map ?f (ems d0) = map (\<lambda>i. (frame_addr d0 + EMS_PGSIZE * of_nat i, EMS_PGSIZE)) [0, 1, 2, 3]"
    using lay by (simp_all add: layout_ok_def)
  have len: "length (ems dev) = EMS_MAXPAGE" using regs by (simp add: regs_ok_def)
  let ?g = "\<lambda>i :: nat. (frame_addr d0 + EMS_PGSIZE * of_nat i, EMS_PGSIZE :: 32 word)"
  have e1: "map ?f (ems dev) ! i = map ?g [0, 1, 2, 3] ! i"
    using same ws by (simp add: same_layout_def)
  have e2: "map ?f (ems dev) ! i = ?f ?e" using i len by simp
  have e3: "map ?g [0, 1, 2, 3] ! i = ?g i"
  proof -
    have "i = 0 \<or> i = 1 \<or> i = 2 \<or> i = 3" using i by arith
    then show ?thesis by auto
  qed
  have "?f ?e = ?g i" using e1 e2 e3 by (simp only:)
  then have w: "m_base (mapping ?e) = frame_addr d0 + EMS_PGSIZE * of_nat i"
    and sz: "m_size (mapping ?e) = EMS_PGSIZE"
    by simp_all
  have vp: "ems_addr_vpage a = i"
    using fr i b o unfolding w sz by (rule window_vpage)
  have "unat (ucast (page ?e) :: 16 word) < unat (ems_pages dev)"
    using pg by (simp add: word_less_nat_alt)
  moreover have "unat (ucast (page ?e) :: 16 word) = unat (page ?e)"
  proof -
    have "unat (page ?e) < 2 ^ 8" using unsigned_less [of "page ?e"] by simp
    then have "take_bit 16 (unat (page ?e)) = unat (page ?e)"
      by (simp add: take_bit_nat_eq_self)
    then show ?thesis
      using unsigned_ucast_eq [of "page ?e", where 'c = 16 and 'a = nat] by simp
  qed
  ultimately have "unat (page ?e) + 1 \<le> unat (ems_pages dev)" by simp
  then have "(unat (page ?e) + 1) * 16384 \<le> unat (ems_pages dev) * 16384"
    by (rule mult_le_mono1)
  moreover have "unat (ems_start dev) + unat (ems_pages dev) * 16384 \<le> length (ram dev)"
    using lay same by (simp add: layout_ok_def same_layout_def)
  ultimately have "unat (ems_start dev) + unat (page ?e) * 16384 + 16384 \<le> length (ram dev)"
    by simp
  then show ?thesis using ad vp sz by simp
qed

lemma ram_write_form:
  "ram_writeb a v mp dev = Some dev' \<Longrightarrow> \<exists>r. dev' = dev\<lparr>ram := r\<rparr> \<and> length r = length (ram dev)"
  "ram_writew a w mp dev = Some dev' \<Longrightarrow> \<exists>r. dev' = dev\<lparr>ram := r\<rparr> \<and> length r = length (ram dev)"
  "ems_writeb a v mp dev = Some dev' \<Longrightarrow> \<exists>r. dev' = dev\<lparr>ram := r\<rparr> \<and> length r = length (ram dev)"
  "ems_writew a w mp dev = Some dev' \<Longrightarrow> \<exists>r. dev' = dev\<lparr>ram := r\<rparr> \<and> length r = length (ram dev)"
  by (auto simp add: ram_writeb_def ram_writew_def ems_writeb_def ems_writew_def Let_def
      split: if_splits option.splits)

lemma mem_write_form:
  "mem_writeb r a v dev = Some dev' \<Longrightarrow> \<exists>x. dev' = dev\<lparr>ram := x\<rparr> \<and> length x = length (ram dev)"
  "mem_writew r a w dev = Some dev' \<Longrightarrow> \<exists>x. dev' = dev\<lparr>ram := x\<rparr> \<and> length x = length (ram dev)"
  by (cases r; simp add: ram_write_form)+

section \<open>The round trip\<close>

lemma write_round_trip:
  assumes lay: "layout_ok d0" and regs: "regs_ok dev" and same: "same_layout d0 dev"
    and own: "owned r"
  shows "in_window (the_map dev r) a \<Longrightarrow>
           \<exists>dev'. mem_writeb r a v dev = Some dev' \<and> mem_readb r a dev' = Some v"
    and "in_window_w (the_map dev r) a \<Longrightarrow> word_inside (the_map dev r) a \<Longrightarrow>
           \<exists>dev'. mem_writew r a w dev = Some dev' \<and> mem_readw r a dev' = Some w"
proof -
  have lo: "unat (m_size (low_mapping dev)) \<le> length (ram dev)"
    and hi: "unat (m_size (high_mapping dev)) \<le> length (ram dev)"
    using lay same by (simp_all add: layout_ok_def same_layout_def)
  show "\<exists>dev'. mem_writeb r a v dev = Some dev' \<and> mem_readb r a dev' = Some v"
    if d: "in_window (the_map dev r) a"
  proof (cases r)
    case LowMap
    have "unat (a - m_base (low_mapping dev)) < length (ram dev)"
      using plain_in_bounds(1) [OF lo] d LowMap by simp
    from ram_byte_round_trip [OF this, of v] obtain dev'
      where w: "ram_writeb a v (low_mapping dev) dev = Some dev'"
        and rd: "ram_readb a (low_mapping dev) dev' = Some v" by blast
    from ram_write_form(1) [OF w] have "low_mapping dev' = low_mapping dev" by auto
    then show ?thesis using w rd LowMap by simp
  next
    case HighMap
    have "unat (a - m_base (high_mapping dev)) < length (ram dev)"
      using plain_in_bounds(1) [OF hi] d HighMap by simp
    from ram_byte_round_trip [OF this, of v] obtain dev'
      where w: "ram_writeb a v (high_mapping dev) dev = Some dev'"
        and rd: "ram_readb a (high_mapping dev) dev' = Some v" by blast
    from ram_write_form(1) [OF w] have "high_mapping dev' = high_mapping dev" by auto
    then show ?thesis using w rd HighMap by simp
  next
    case (EmsMap i)
    let ?mp = "mapping (ems dev ! i)"
    have i: "i < EMS_MAXPAGE" using own EmsMap by simp
    have en: "m_enable ?mp" and b: "m_base ?mp \<le> a" and o: "a - m_base ?mp < m_size ?mp"
      using d EmsMap by (simp_all add: in_window_def)
    from window_in_bounds [OF lay regs same i en b o] obtain p
      where p: "addr (ems dev ! ems_addr_vpage a) = Some p"
        and pb: "p + EMS_PGSIZE \<le> length (ram dev)" and sz: "m_size ?mp = EMS_PGSIZE" by blast
    have "unat (a - m_base ?mp) < 16384" using o sz by (simp add: word_less_nat_alt)
    then have "p + unat (a - m_base ?mp) < length (ram dev)" using pb by simp
    from ems_byte_round_trip [OF p this, of v] obtain dev'
      where w: "ems_writeb a v ?mp dev = Some dev'"
        and rd: "ems_readb a ?mp dev' = Some v" by blast
    from ram_write_form(3) [OF w] have "ems dev' = ems dev" by auto
    then show ?thesis using w rd EmsMap by simp
  qed
  show "\<exists>dev'. mem_writew r a w dev = Some dev' \<and> mem_readw r a dev' = Some w"
    if d: "in_window_w (the_map dev r) a" and wi: "word_inside (the_map dev r) a"
  proof (cases r)
    case LowMap
    have "unat (a - m_base (low_mapping dev)) + 1 < length (ram dev)"
      using plain_in_bounds(2) [OF lo] wi LowMap by simp
    from ram_word_round_trip [OF this, of w] obtain dev'
      where wr: "ram_writew a w (low_mapping dev) dev = Some dev'"
        and rd: "ram_readw a (low_mapping dev) dev' = Some w" by blast
    from ram_write_form(2) [OF wr] have "low_mapping dev' = low_mapping dev" by auto
    then show ?thesis using wr rd LowMap by simp
  next
    case HighMap
    have "unat (a - m_base (high_mapping dev)) + 1 < length (ram dev)"
      using plain_in_bounds(2) [OF hi] wi HighMap by simp
    from ram_word_round_trip [OF this, of w] obtain dev'
      where wr: "ram_writew a w (high_mapping dev) dev = Some dev'"
        and rd: "ram_readw a (high_mapping dev) dev' = Some w" by blast
    from ram_write_form(2) [OF wr] have "high_mapping dev' = high_mapping dev" by auto
    then show ?thesis using wr rd HighMap by simp
  next
    case (EmsMap i)
    let ?mp = "mapping (ems dev ! i)"
    have i: "i < EMS_MAXPAGE" using own EmsMap by simp
    have dw: "in_window_w ?mp a" and dwi: "word_inside ?mp a" using d wi EmsMap by simp_all
    note f = in_window_w_off [OF dw dwi]
    from window_in_bounds [OF lay regs same i f(1) f(2) f(3)] obtain p
      where p: "addr (ems dev ! ems_addr_vpage a) = Some p"
        and pb: "p + EMS_PGSIZE \<le> length (ram dev)" and sz: "m_size ?mp = EMS_PGSIZE" by blast
    have "unat (a - m_base ?mp) + 1 < 16384" using f(4) sz by simp
    then have "p + unat (a - m_base ?mp) + 1 < length (ram dev)" using pb by simp
    from ems_word_round_trip [OF p this, of w] obtain dev'
      where wr: "ems_writew a w ?mp dev = Some dev'"
        and rd: "ems_readw a ?mp dev' = Some w" by blast
    from ram_write_form(4) [OF wr] have "ems dev' = ems dev" by auto
    then show ?thesis using wr rd EmsMap by simp
  qed
qed

lemma mem_write_keeps:
  assumes regs: "regs_ok dev" and same: "same_layout d0 dev"
  shows "mem_writeb r a v dev = Some dev' \<Longrightarrow> regs_ok dev' \<and> same_layout d0 dev'"
    and "mem_writew r a w dev = Some dev' \<Longrightarrow> regs_ok dev' \<and> same_layout d0 dev'"
proof -
  show "regs_ok dev' \<and> same_layout d0 dev'" if "mem_writeb r a v dev = Some dev'"
  proof -
    from mem_write_form(1) [OF that] obtain y
      where "dev' = dev\<lparr>ram := y\<rparr>" and "length y = length (ram dev)" by blast
    then show ?thesis using regs same by (simp add: regs_ok_ram same_layout_ram)
  qed
  show "regs_ok dev' \<and> same_layout d0 dev'" if "mem_writew r a w dev = Some dev'"
  proof -
    from mem_write_form(2) [OF that] obtain y
      where "dev' = dev\<lparr>ram := y\<rparr>" and "length y = length (ram dev)" by blast
    then show ?thesis using regs same by (simp add: regs_ok_ram same_layout_ram)
  qed
qed

lemma step_keeps:
  assumes regs: "regs_ok dev" and same: "same_layout d0 dev" and s: "step dev x = Some dev'"
  shows "regs_ok dev' \<and> same_layout d0 dev'"
proof (cases x)
  case (Io y)
  show ?thesis
  proof (cases y)
    case (IoRead port)
    then show ?thesis using Io regs same s by simp
  next
    case (IoWrite port val)
    then show ?thesis
      using Io s regs_ok_ems_write [OF regs] same_layout_ems_write [OF same] by auto
  qed
next
  case (MemWriteB r a v)
  show ?thesis
  proof (cases "owned r \<and> in_window (the_map dev r) a")
    case True
    then have "mem_writeb r a v dev = Some dev'" using s MemWriteB by simp
    then show ?thesis by (rule mem_write_keeps(1) [OF regs same])
  next
    case False
    then show ?thesis using MemWriteB regs same s by auto
  qed
next
  case (MemWriteW r a w)
  show ?thesis
  proof (cases "owned r \<and> in_window_w (the_map dev r) a")
    case True
    then have "mem_writew r a w dev = Some dev'" using s MemWriteW by simp
    then show ?thesis by (rule mem_write_keeps(2) [OF regs same])
  next
    case False
    then show ?thesis using MemWriteW regs same s by auto
  qed
qed

lemma run_keeps:
  "regs_ok dev \<Longrightarrow> same_layout d0 dev \<Longrightarrow> run xs dev = Some dev' \<Longrightarrow>
     regs_ok dev' \<and> same_layout d0 dev'"
proof (induction xs arbitrary: dev)
  case Nil
  then show ?case by simp
next
  case (Cons x xs)
  from Cons.prems(3) obtain d1 where s: "step dev x = Some d1" and r: "run xs d1 = Some dev'"
    by (auto split: option.splits)
  from step_keeps [OF Cons.prems(1,2) s] have "regs_ok d1" and "same_layout d0 d1" by simp_all
  then show ?case using r by (rule Cons.IH)
qed

lemma word_inside_same:
  assumes regs0: "regs_ok d0" and regs: "regs_ok dev" and same: "same_layout d0 dev"
    and own: "owned r"
  shows "word_inside (the_map dev r) a = word_inside (the_map d0 r) a"
proof (cases r)
  case LowMap
  then show ?thesis using same by (simp add: same_layout_def)
next
  case HighMap
  then show ?thesis using same by (simp add: same_layout_def)
next
  case (EmsMap i)
  let ?f = "\<lambda>e. (m_base (mapping e), m_size (mapping e))"
  have i: "i < EMS_MAXPAGE" using own EmsMap by simp
  have l0: "length (ems d0) = EMS_MAXPAGE" and l: "length (ems dev) = EMS_MAXPAGE"
    using regs0 regs by (simp_all add: regs_ok_def)
  have "map ?f (ems dev) ! i = map ?f (ems d0) ! i" using same by (simp add: same_layout_def)
  then have "?f (ems dev ! i) = ?f (ems d0 ! i)" using i l0 l by simp
  then show ?thesis using EmsMap by (simp add: word_inside_def)
qed

lemma step_total:
  assumes lay: "layout_ok d0" and regs0: "regs_ok d0"
    and regs: "regs_ok dev" and same: "same_layout d0 dev" and w: "words_inside d0 x"
  shows "\<exists>dev'. step dev x = Some dev'"
proof (cases x)
  case (Io y)
  then show ?thesis by simp
next
  case (MemWriteB r a v)
  then show ?thesis using write_round_trip(1) [OF lay regs same, of r a v] by auto
next
  case (MemWriteW r a val)
  show ?thesis
  proof (cases "owned r \<and> in_window_w (the_map dev r) a")
    case True
    then have "word_inside (the_map d0 r) a" using w MemWriteW by simp
    then have "word_inside (the_map dev r) a"
      using word_inside_same [OF regs0 regs same, of r a] True by simp
    then show ?thesis
      using write_round_trip(2) [OF lay regs same, of r a val] True MemWriteW by auto
  next
    case False
    then show ?thesis using MemWriteW by auto
  qed
qed

lemma run_total:
  assumes lay: "layout_ok d0" and regs0: "regs_ok d0"
  shows "regs_ok dev \<Longrightarrow> same_layout d0 dev \<Longrightarrow> \<forall>x \<in> set xs. words_inside d0 x \<Longrightarrow>
           \<exists>dev'. run xs dev = Some dev'"
proof (induction xs arbitrary: dev)
  case Nil
  then show ?case by simp
next
  case (Cons x xs)
  have "words_inside d0 x" using Cons.prems(3) by simp
  from step_total [OF lay regs0 Cons.prems(1,2) this] obtain d1
    where s: "step dev x = Some d1" by blast
  from step_keeps [OF Cons.prems(1,2) s] have "regs_ok d1" and "same_layout d0 d1" by simp_all
  moreover have "\<forall>x \<in> set xs. words_inside d0 x" using Cons.prems(3) by simp
  ultimately have "\<exists>dev'. run xs d1 = Some dev'" by (rule Cons.IH)
  then show ?case using s by simp
qed

text \<open>
  C3, as amended. Take a board whose configuration sets aside no more plain RAM than
  the buffer holds, and any sequence of register accesses and routed writes from its
  construction. If no word of the sequence is written across the end of a window, the
  sequence runs without leaving the buffer. In every state a sequence reaches, for
  every address the host routes to one of the board's mappings (the conventional
  region, the extended region or a viewport, enabled, the address in its window), a
  byte written there is read back; so is a word, where word handlers are registered and
  both bytes of the word lie in the window. The same holds through the shared remap
  window the construction registered, once software has enabled it.
\<close>

theorem ram_round_trip:
  assumes "reserved_bytes (layout_start at loc cfg) \<le> l_k (layout_start at loc cfg)"
  shows "((\<forall>x \<in> set xs. words_inside (l_dev (isamem_init at loc cfg)) x) \<longrightarrow>
            (\<exists>d. run xs (l_dev (isamem_init at loc cfg)) = Some d))
     \<and> (\<forall>d. run xs (l_dev (isamem_init at loc cfg)) = Some d \<longrightarrow>
           (\<forall>r a v. owned r \<and> in_window (the_map d r) a \<longrightarrow>
              (\<exists>d'. mem_writeb r a v d = Some d' \<and> mem_readb r a d' = Some v))
         \<and> (\<forall>r a w. owned r \<and> in_window_w (the_map d r) a \<and> word_inside (the_map d r) a \<longrightarrow>
              (\<exists>d'. mem_writew r a w d = Some d' \<and> mem_readw r a d' = Some w))
         \<and> (\<forall>mp a v. l_remap (isamem_init at loc cfg) = Some mp
                       \<and> in_window (mem_mapping_enable mp) a \<longrightarrow>
              (\<exists>d'. ram_writeb a v (mem_mapping_enable mp) d = Some d'
                    \<and> ram_readb a (mem_mapping_enable mp) d' = Some v))
         \<and> (\<forall>mp a w. l_remap (isamem_init at loc cfg) = Some mp
                       \<and> in_window_w (mem_mapping_enable mp) a
                       \<and> word_inside (mem_mapping_enable mp) a \<longrightarrow>
              (\<exists>d'. ram_writew a w (mem_mapping_enable mp) d = Some d'
                    \<and> ram_readw a (mem_mapping_enable mp) d' = Some w)))"
proof -
  let ?d0 = "l_dev (isamem_init at loc cfg)"
  have lay: "layout_ok ?d0" using assms by (rule init_layout_ok)
  have t: "\<exists>d. run xs ?d0 = Some d" if "\<forall>x \<in> set xs. words_inside ?d0 x"
    using run_total [OF lay init_regs_ok init_regs_ok same_layout_refl that] .
  have k: "(\<forall>r a v. owned r \<and> in_window (the_map d r) a \<longrightarrow>
              (\<exists>d'. mem_writeb r a v d = Some d' \<and> mem_readb r a d' = Some v))
         \<and> (\<forall>r a w. owned r \<and> in_window_w (the_map d r) a \<and> word_inside (the_map d r) a \<longrightarrow>
              (\<exists>d'. mem_writew r a w d = Some d' \<and> mem_readw r a d' = Some w))
         \<and> (\<forall>mp a v. l_remap (isamem_init at loc cfg) = Some mp
                       \<and> in_window (mem_mapping_enable mp) a \<longrightarrow>
              (\<exists>d'. ram_writeb a v (mem_mapping_enable mp) d = Some d'
                    \<and> ram_readb a (mem_mapping_enable mp) d' = Some v))
         \<and> (\<forall>mp a w. l_remap (isamem_init at loc cfg) = Some mp
                       \<and> in_window_w (mem_mapping_enable mp) a
                       \<and> word_inside (mem_mapping_enable mp) a \<longrightarrow>
              (\<exists>d'. ram_writew a w (mem_mapping_enable mp) d = Some d'
                    \<and> ram_readw a (mem_mapping_enable mp) d' = Some w))"
    if r: "run xs ?d0 = Some d" for d
  proof -
    from run_keeps [OF init_regs_ok same_layout_refl r]
    have regs: "regs_ok d" and same: "same_layout ?d0 d" by simp_all
    have len: "length (ram d) = length (ram ?d0)" using same by (simp add: same_layout_def)
    have rm: "unat (m_size (mem_mapping_enable mp)) \<le> length (ram d)"
      if "l_remap (isamem_init at loc cfg) = Some mp" for mp
      using init_plain_sizes(3) [OF assms that] len by (simp add: mapping_defs)
    have b: "\<exists>d'. mem_writeb r a v d = Some d' \<and> mem_readb r a d' = Some v"
      if "owned r \<and> in_window (the_map d r) a" for r a v
      using write_round_trip(1) [OF lay regs same] that by blast
    have w: "\<exists>d'. mem_writew r a w d = Some d' \<and> mem_readw r a d' = Some w"
      if "owned r \<and> in_window_w (the_map d r) a \<and> word_inside (the_map d r) a" for r a w
      using write_round_trip(2) [OF lay regs same] that by blast
    have rb: "\<exists>d'. ram_writeb a v (mem_mapping_enable mp) d = Some d'
                   \<and> ram_readb a (mem_mapping_enable mp) d' = Some v"
      if "l_remap (isamem_init at loc cfg) = Some mp \<and> in_window (mem_mapping_enable mp) a"
      for mp a v
      using plain_in_bounds(1) [OF rm] that by (blast intro: ram_byte_round_trip)
    have rw: "\<exists>d'. ram_writew a w (mem_mapping_enable mp) d = Some d'
                   \<and> ram_readw a (mem_mapping_enable mp) d' = Some w"
      if "l_remap (isamem_init at loc cfg) = Some mp
          \<and> in_window_w (mem_mapping_enable mp) a \<and> word_inside (mem_mapping_enable mp) a"
      for mp a w
      using plain_in_bounds(2) [OF rm] that by (blast intro: ram_word_round_trip)
    show ?thesis using b w rb rw by blast
  qed
  show ?thesis using t k by blast
qed

lemma layout_start_board1:
  "l_k (layout_start at (Suc 0) cfg) = push_bit 10 (ucast (word_of_int (cfg_size cfg) :: 16 word))"
  "l_tot (layout_start at (Suc 0) cfg) = push_bit 10 (ucast (word_of_int (cfg_size cfg) :: 16 word))"
  "l_addr (layout_start at (Suc 0) cfg) = push_bit 10 (word_of_int (cfg_start cfg))"
  "flags (l_dev (layout_start at (Suc 0) cfg)) AND FLAG_WIDE \<noteq> 0 \<longleftrightarrow> at"
  by (simp_all add: layout_start_def board_setup_def Let_def memdev_zero_def flag_defs)

lemma ibmat_last_word:
  "reserved_bytes (layout_start True (Suc 0) (ibmat_cfg 512 128))
     \<le> l_k (layout_start True (Suc 0) (ibmat_cfg 512 128))"
  "in_window_w (the_map (l_dev (isamem_init True (Suc 0) (ibmat_cfg 512 128))) LowMap) 0x9FFFF"
  "mem_writew LowMap 0x9FFFF w (l_dev (isamem_init True (Suc 0) (ibmat_cfg 512 128))) = None"
proof -
  let ?c = "ibmat_cfg 512 128"
  let ?s0 = "layout_start True (Suc 0) ?c"
  let ?s1 = "carve_ext True (carve_conv ?s0)"
  have k: "l_k ?s0 = 524288" and t: "l_tot ?s0 = 524288" and a: "l_addr ?s0 = 131072"
    by (simp_all add: layout_start_board1 ibmat_cfg_def)
  have w: "flags (l_dev ?s0) AND FLAG_WIDE \<noteq> 0" by (simp add: layout_start_board1)
  note st = k t a layout_start_locals(1-3) [of True "Suc 0" ?c] layout_start_dev(1,2) [of True "Suc 0" ?c]
  show "reserved_bytes ?s0 \<le> l_k ?s0" by (simp add: reserved_bytes_def k t a)
  have "low_mapping (l_dev ?s1) = mem_mapping_add 131072 524288 True 0"
    using w by (simp add: carve_ext_def carve_conv_def carve_uma_def carve_low_def Let_def st)
  then have lo: "low_mapping (l_dev (isamem_init True (Suc 0) ?c)) = mem_mapping_add 131072 524288 True 0"
    by (simp add: isamem_init_def setup_ems_keeps)
  have len: "length (ram (l_dev (isamem_init True (Suc 0) ?c))) = 524288"
    by (simp add: init_ram_length k)
  show "in_window_w (the_map (l_dev (isamem_init True (Suc 0) ?c)) LowMap) 0x9FFFF"
    by (simp add: lo in_window_w_def in_window_def mapping_defs)
  show "mem_writew LowMap 0x9FFFF w (l_dev (isamem_init True (Suc 0) ?c)) = None"
    by (simp add: lo len ram_writew_def mapping_defs)
qed

lemma ev159_no_buffer:
  "in_window (the_map (l_dev (isamem_init False 10 (ev159_cfg 0 256 128))) LowMap) 0x40000"
  "mem_writeb LowMap 0x40000 v (l_dev (isamem_init False 10 (ev159_cfg 0 256 128))) = None"
proof -
  let ?c = "ev159_cfg 0 256 128"
  let ?s0 = "layout_start False 10 ?c"
  let ?s1 = "carve_ext False (carve_conv ?s0)"
  have k: "l_k ?s0 = 0" and t: "l_tot ?s0 = 131072" and a: "l_addr ?s0 = 262144"
    by (simp_all add: layout_start_board10 ev159_cfg_def)
  have w: "flags (l_dev ?s0) AND FLAG_WIDE = 0"
    using layout_start_board10_flags(2) [of False ?c] by simp
  note st = k t a layout_start_locals(1-3) [of False 10 ?c] layout_start_dev(1,2) [of False 10 ?c]
  have "low_mapping (l_dev ?s1) = mem_mapping_add 262144 131072 False 0"
    by (simp add: carve_ext_def carve_conv_def carve_uma_def carve_low_def Let_def st w)
  then have lo: "low_mapping (l_dev (isamem_init False 10 ?c)) = mem_mapping_add 262144 131072 False 0"
    by (simp add: isamem_init_def setup_ems_keeps)
  have len: "length (ram (l_dev (isamem_init False 10 ?c))) = 0"
    by (simp add: init_ram_length k)
  show "in_window (the_map (l_dev (isamem_init False 10 ?c)) LowMap) 0x40000"
    by (simp add: lo in_window_def mapping_defs)
  show "mem_writeb LowMap 0x40000 v (l_dev (isamem_init False 10 ?c)) = None"
    using len by (simp add: lo ram_writeb_def mapping_defs)
qed

text \<open>
  C3 as the specification states it fails twice. On an AT, an IBM PC/AT Memory
  Expansion of 512 KB that starts at 128 KB maps [131072, 655360) with word handlers on
  a buffer of exactly 524288 bytes: the address 9FFFFH is inside the region, and
  \<open>ram_writew\<close> there writes the byte after the last one of the buffer. And an EV-159
  with memory size 0, start address 256 KB and contiguous size 128 KB maps
  [262144, 393216) on a buffer of no bytes at all: every byte written to the region
  leaves the buffer.
\<close>

theorem ram_round_trip_counterexample:
  "reserved_bytes (layout_start True 1 (ibmat_cfg 512 128))
     \<le> l_k (layout_start True 1 (ibmat_cfg 512 128))
   \<and> in_window_w (the_map (l_dev (isamem_init True 1 (ibmat_cfg 512 128))) LowMap) 0x9FFFF
   \<and> mem_writew LowMap 0x9FFFF 0x1234 (l_dev (isamem_init True 1 (ibmat_cfg 512 128))) = None
   \<and> in_window (the_map (l_dev (isamem_init False 10 (ev159_cfg 0 256 128))) LowMap) 0x40000
   \<and> mem_writeb LowMap 0x40000 0x5A (l_dev (isamem_init False 10 (ev159_cfg 0 256 128))) = None"
  using ibmat_last_word(1,2) ibmat_last_word(3) [of "0x1234"]
    ev159_no_buffer(1) ev159_no_buffer(2) [of "0x5A"] by simp

lemma ev159_dev_windows:
  "map (\<lambda>e. (m_base (mapping e), m_size (mapping e))) (ems ev159_dev)
     = [(0xE0000, 16384), (0xE4000, 16384), (0xE8000, 16384), (0xEC000, 16384)]"
proof -
  have f: "flags (l_dev (layout_start True 10 (ev159_cfg 512 0 0))) AND FLAG_EMS \<noteq> 0"
    using ev159_dev_fields(3) by (simp add: ev159_dev_def init_keeps flag_defs)
  have "frame_addr (l_dev (carve_ext True (carve_conv (layout_start True 10 (ev159_cfg 512 0 0)))))
          = 0xE0000"
    by (simp add: carve_ext_keeps carve_conv_keeps layout_start_board10)
  then show ?thesis using f by (simp add: ev159_dev_def init_ems viewport_window_def)
qed

theorem ram_round_trip_witness:
  "reserved_bytes (layout_start True 10 (ev159_cfg 512 0 0))
     \<le> l_k (layout_start True 10 (ev159_cfg 512 0 0))
   \<and> run [Io (IoWrite 0x259 1), Io (IoWrite 0x8258 0x85)] ev159_dev
       = Some (ems_write 0x8258 0x85 (ems_write 0x259 1 ev159_dev))
   \<and> in_window (the_map (ems_write 0x8258 0x85 (ems_write 0x259 1 ev159_dev)) (EmsMap 2)) 0xE8010
   \<and> (\<exists>d'. mem_writeb (EmsMap 2) 0xE8010 0x5A
               (ems_write 0x8258 0x85 (ems_write 0x259 1 ev159_dev)) = Some d'
            \<and> mem_readb (EmsMap 2) 0xE8010 d' = Some 0x5A)"
proof -
  let ?d1 = "ems_write 0x259 1 ev159_dev"
  let ?d = "ems_write 0x8258 0x85 ?d1"
  have v: "reserved_bytes (layout_start True 10 (ev159_cfg 512 0 0))
             \<le> l_k (layout_start True 10 (ev159_cfg 512 0 0))"
    by (simp add: reserved_bytes_def layout_start_board10 ev159_cfg_def)
  have r: "run [Io (IoWrite 0x259 1), Io (IoWrite 0x8258 0x85)] ev159_dev = Some ?d"
    by simp
  have c: "flags ?d1 AND FLAG_CONFIG \<noteq> 0"
    by (simp add: ems_write_flags ev159_dev_regsel ev159_dev_fields flag_defs)
  have s: "ems_regsel ?d1 0x8258 = 0" by (simp add: regsel_ems_write ev159_dev_regsel)
  have l: "length (ems ?d1) = EMS_MAXPAGE" by (simp add: ems_write_keeps ev159_dev_len)
  have n: "ems ?d ! 2 = ems_page_write ?d1 0x85 (ems ?d1 ! 2)"
    using ems_write_page_nth [OF s l, of "0x85"] by (simp add: ev159_dev_regsel)
  have "ems ?d1 ! 2 = ems ev159_dev ! 2"
    by (rule ems_write_other_nth) (simp add: ev159_dev_regsel)
  moreover have "map (\<lambda>e. (m_base (mapping e), m_size (mapping e))) (ems ev159_dev) ! 2
                   = (\<lambda>e. (m_base (mapping e), m_size (mapping e))) (ems ev159_dev ! 2)"
    by (rule nth_map) (simp add: ev159_dev_len)
  ultimately have bs: "m_base (mapping (ems ?d1 ! 2)) = 0xE8000"
    "m_size (mapping (ems ?d1 ! 2)) = 16384"
    by (simp_all add: ev159_dev_windows)
  have en: "m_enable (mapping (ems ?d ! 2))"
    by (simp add: n ems_page_write_configured [OF c] ems_write_keeps ev159_dev_fields)
  have iw: "in_window (the_map ?d (EmsMap 2)) 0xE8010"
    using en by (simp add: in_window_def n ems_page_write_fields bs)
  have o: "owned (EmsMap 2)" by simp
  from ram_round_trip [OF v, of "[Io (IoWrite 0x259 1), Io (IoWrite 0x8258 0x85)]",
      folded ev159_dev_def]
  have "\<forall>d. run [Io (IoWrite 0x259 1), Io (IoWrite 0x8258 0x85)] ev159_dev = Some d \<longrightarrow>
          (\<forall>r a v. owned r \<and> in_window (the_map d r) a \<longrightarrow>
             (\<exists>d'. mem_writeb r a v d = Some d' \<and> mem_readb r a d' = Some v))"
    by blast
  then have "\<exists>d'. mem_writeb (EmsMap 2) 0xE8010 0x5A ?d = Some d'
             \<and> mem_readb (EmsMap 2) 0xE8010 d' = Some 0x5A"
    using r o iw by blast
  then show ?thesis using v r iw by blast
qed

section \<open>Further properties of the specification\<close>

text \<open>
  X1. Scenario C of the specification. On a configured board with \<open>ems_pages = 32\<close>, a write
  of \<open>0x85\<close> to the page register of viewport 2 leaves the viewport enabled with page 5,
  its window enabled, and the window's backing pointer, like the page address, at
  \<open>ems_start + 5 * 16384\<close>.
\<close>

theorem scenario_C:
  assumes "ems_regsel dev port = 0" and "ems_vpage port = 2"
    and "length (ems dev) = EMS_MAXPAGE"
    and "flags dev AND FLAG_CONFIG \<noteq> 0" and "ems_pages dev = 32"
  shows "enabled (ems (ems_write port 0x85 dev) ! 2) \<noteq> 0
         \<and> page (ems (ems_write port 0x85 dev) ! 2) = 5
         \<and> m_enable (mapping (ems (ems_write port 0x85 dev) ! 2))
         \<and> m_exec (mapping (ems (ems_write port 0x85 dev) ! 2))
             = Some (unat (ems_start dev) + 5 * 16384)
         \<and> addr (ems (ems_write port 0x85 dev) ! 2) = Some (unat (ems_start dev) + 5 * 16384)"
proof -
  have n: "ems (ems_write port 0x85 dev) ! 2 = ems_page_write dev 0x85 (ems dev ! 2)"
    using ems_write_page_nth [OF assms(1) assms(3), of "0x85"] by (simp add: assms(2))
  show ?thesis
    by (simp add: n ems_page_write_fields ems_page_write_configured [OF assms(4)] assms(5))
qed

theorem scenario_C_witness:
  "ems_regsel (ems_write 0x259 1 ev159_dev) 0x8258 = 0
   \<and> flags (ems_write 0x259 1 ev159_dev) AND FLAG_CONFIG \<noteq> 0
   \<and> ems_pages (ems_write 0x259 1 ev159_dev) = 32
   \<and> page (ems (ems_write 0x8258 0x85 (ems_write 0x259 1 ev159_dev)) ! 2) = 5
   \<and> m_enable (mapping (ems (ems_write 0x8258 0x85 (ems_write 0x259 1 ev159_dev)) ! 2))
   \<and> m_exec (mapping (ems (ems_write 0x8258 0x85 (ems_write 0x259 1 ev159_dev)) ! 2))
       = Some 81920"
proof -
  let ?d1 = "ems_write 0x259 1 ev159_dev"
  have c: "flags ?d1 AND FLAG_CONFIG \<noteq> 0"
    by (simp add: ems_write_flags ev159_dev_regsel ev159_dev_fields flag_defs)
  have s: "ems_regsel ?d1 0x8258 = 0" by (simp add: regsel_ems_write ev159_dev_regsel)
  have l: "length (ems ?d1) = EMS_MAXPAGE" by (simp add: ems_write_keeps ev159_dev_len)
  have p: "ems_pages ?d1 = 32" by (simp add: ems_write_keeps ev159_dev_fields)
  have v: "ems_vpage 0x8258 = 2" by (rule ev159_dev_regsel)
  show ?thesis
    using scenario_C [OF s v l c p] s c p by (simp add: ems_write_keeps ev159_dev_fields)
qed

text \<open>
  X2. The invariant \<open>ems_start + ems_pages * 16384 \<le> total_size_KB * 1024\<close> of the
  specification holds for every configuration that sets aside no more plain RAM than
  the buffer holds.
\<close>

theorem pool_within_buffer:
  assumes "reserved_bytes (layout_start at loc cfg) \<le> l_k (layout_start at loc cfg)"
  shows "unat (ems_start (l_dev (isamem_init at loc cfg)))
           + unat (ems_pages (l_dev (isamem_init at loc cfg))) * 16384
         \<le> unat (total_size (l_dev (isamem_init at loc cfg))) * 1024"
proof -
  let ?t = "total_size (l_dev (layout_start at loc cfg))"
  have "unat (ucast ?t :: 32 word) = unat ?t" by (rule unat_ucast_16_32)
  moreover have "unat ?t < 65536" using unsigned_less [of ?t] by simp
  ultimately have "unat (ucast ?t :: 32 word) * unat (1024 :: 32 word) < 2 ^ LENGTH(32)"
    by simp
  then have "unat ((ucast ?t :: 32 word) * 1024) = unat (ucast ?t :: 32 word) * unat (1024 :: 32 word)"
    by (rule unat_mult_lem [THEN iffD1])
  then have "unat (push_bit 10 (ucast ?t :: 32 word)) = unat ?t * 1024"
    by (simp add: push_bit_eq_mult unat_ucast_16_32)
  then have "length (ram (l_dev (isamem_init at loc cfg)))
               = unat (total_size (l_dev (isamem_init at loc cfg))) * 1024"
    by (simp add: init_ram_length layout_start_locals(6) init_total_size)
  then show ?thesis using pool_in_buffer [OF assms] by simp
qed

theorem pool_within_buffer_witness:
  "reserved_bytes (layout_start False 10 (ev159_cfg 1024 256 384))
     \<le> l_k (layout_start False 10 (ev159_cfg 1024 256 384))
   \<and> unat (ems_start (l_dev (isamem_init False 10 (ev159_cfg 1024 256 384))))
       + unat (ems_pages (l_dev (isamem_init False 10 (ev159_cfg 1024 256 384)))) * 16384
     \<le> unat (total_size (l_dev (isamem_init False 10 (ev159_cfg 1024 256 384)))) * 1024"
proof -
  have v: "reserved_bytes (layout_start False 10 (ev159_cfg 1024 256 384))
             \<le> l_k (layout_start False 10 (ev159_cfg 1024 256 384))"
    by (simp add: reserved_bytes_def layout_start_board10 ev159_cfg_def)
  show ?thesis using v pool_within_buffer [OF v] by simp
qed

section \<open>The ports the layout builder registers\<close>

text \<open>
  With EMS enabled, \<open>isamem_init\<close> gives \<open>io_sethandler\<close> the four bases
  \<open>ems_port dev i 0\<close>, in the order of the viewports; without EMS it registers none.
\<close>

lemma init_io_ports:
  "l_io (isamem_init at loc cfg) =
     (if flags (l_dev (isamem_init at loc cfg)) AND FLAG_EMS \<noteq> 0
      then map (\<lambda>i. ems_port (l_dev (isamem_init at loc cfg)) i 0) [0, 1, 2, 3]
      else [])"
proof (cases "flags (l_dev (layout_start at loc cfg)) AND FLAG_EMS = 0")
  case True
  then have "flags (l_dev (carve_ext at (carve_conv (layout_start at loc cfg)))) AND FLAG_EMS = 0"
    by (simp add: carve_ext_keeps carve_conv_keeps)
  then show ?thesis
    using True
    by (simp add: isamem_init_def setup_ems_off carve_ext_keeps carve_conv_keeps
        layout_start_locals(3) init_keeps)
next
  case False
  let ?s = "carve_ext at (carve_conv (layout_start at loc cfg))"
  have f: "flags (l_dev ?s) AND FLAG_EMS \<noteq> 0"
    using False by (simp add: carve_ext_keeps carve_conv_keeps)
  have "l_io (setup_ems ?s) =
          [ucast (base_addr (l_dev ?s)), ucast (base_addr (l_dev ?s) + 16384),
           ucast (base_addr (l_dev ?s) + 32768), ucast (base_addr (l_dev ?s) + 49152)]"
    using f
    by (simp add: setup_ems_def Let_def ems_setup_loop_io carve_ext_keeps carve_conv_keeps
        layout_start_locals(3))
  then show ?thesis
    using False
    by (simp add: isamem_init_def [symmetric] init_keeps ems_port_def carve_ext_keeps
        carve_conv_keeps)
qed

end
